theory Spec2Isabelle
  imports Complex_Main "HOL-Library.AList"
begin

section \<open>Data model (types.ts, request.ts)\<close>

text \<open>
  The HTTP verbs of \<^verbatim>\<open>METHODS\<close> in types.ts, and the two match modes.
\<close>

datatype Method = Get | Delete | Head | Options | Post | Put | Patch | Purge | Link | Unlink

datatype MatchMode = Strict | Partial

subsection \<open>JavaScript values\<close>

text \<open>
  A JavaScript number: a finite value (every finite double is a rational; \<^verbatim>\<open>+0\<close> and
  \<^verbatim>\<open>-0\<close>, which neither \<^verbatim>\<open>!\<close> nor \<^verbatim>\<open>==\<close> tells apart, are both \<open>Finite 0\<close>),
  an infinity, or \<^verbatim>\<open>NaN\<close>.
\<close>

datatype jsnum = Finite rat | PosInfinity | NegInfinity | NaN

text \<open>
  The values that reach the matcher as \<^verbatim>\<open>headers\<close>, \<^verbatim>\<open>params\<close> and \<^verbatim>\<open>body\<close>:
  \<^verbatim>\<open>undefined\<close>, \<^verbatim>\<open>null\<close>, booleans, numbers, strings, arrays and plain objects
  (an object is the list of its own enumerable properties, each key once). This is what
  \<^verbatim>\<open>JSON.parse\<close> returns and what an object literal of such values holds; a field
  that is absent reads as \<open>JUndefined\<close>.
\<close>

datatype jsval =
    JUndefined | JNull | JBool bool | JNum jsnum | JStr string
  | JArr "jsval list" | JObj "(string \<times> jsval) list"

type_synonym Matchable = jsval

text \<open>
  JavaScript truthiness (the operand of \<^verbatim>\<open>!\<close>, \<^verbatim>\<open>&&\<close> and \<^verbatim>\<open>||\<close>):
  \<^verbatim>\<open>undefined\<close>, \<^verbatim>\<open>null\<close>, \<^verbatim>\<open>false\<close>, \<^verbatim>\<open>0\<close>, \<^verbatim>\<open>NaN\<close> and the empty
  string are falsy; everything else, and so every object, is truthy.
\<close>

fun truthy :: "jsval \<Rightarrow> bool" where
  "truthy JUndefined = False"
| "truthy JNull = False"
| "truthy (JBool b) = b"
| "truthy (JNum n) = (n \<noteq> Finite 0 \<and> n \<noteq> NaN)"
| "truthy (JStr s) = (s \<noteq> [])"
| "truthy (JArr xs) = True"
| "truthy (JObj kvs) = True"

text \<open>\<^verbatim>\<open>==\<close> on two numbers: \<^verbatim>\<open>NaN\<close> equals nothing.\<close>

fun num_eq :: "jsnum \<Rightarrow> jsnum \<Rightarrow> bool" where
  "num_eq (Finite a) (Finite b) = (a = b)"
| "num_eq PosInfinity PosInfinity = True"
| "num_eq NegInfinity NegInfinity = True"
| "num_eq a b = False"

text \<open>\<^verbatim>\<open>ToNumber\<close> of a boolean.\<close>

definition bool_num :: "bool \<Rightarrow> jsnum" where
  "bool_num b = (if b then Finite 1 else Finite 0)"

text \<open>
  \<^verbatim>\<open>==\<close> on two primitive values (ECMAScript's IsLooselyEqual): values of one type
  compare by value, \<^verbatim>\<open>null\<close> and \<^verbatim>\<open>undefined\<close> equal each other and nothing else, a
  boolean is turned into a number, and a string compared with a number is turned into a
  number. \<open>N\<close> is that last conversion, JavaScript's \<^verbatim>\<open>ToNumber\<close> on strings; it is
  part of the language, not of this library, and everything below takes it as a
  parameter.
\<close>

fun loose_eq :: "(string \<Rightarrow> jsnum) \<Rightarrow> jsval \<Rightarrow> jsval \<Rightarrow> bool" where
  "loose_eq N JUndefined JUndefined = True"
| "loose_eq N JUndefined JNull = True"
| "loose_eq N JNull JUndefined = True"
| "loose_eq N JNull JNull = True"
| "loose_eq N (JBool a) (JBool b) = (a = b)"
| "loose_eq N (JNum a) (JNum b) = num_eq a b"
| "loose_eq N (JStr s) (JStr t) = (s = t)"
| "loose_eq N (JNum a) (JStr t) = num_eq a (N t)"
| "loose_eq N (JStr s) (JNum b) = num_eq (N s) b"
| "loose_eq N (JBool a) (JNum b) = num_eq (bool_num a) b"
| "loose_eq N (JNum a) (JBool b) = num_eq a (bool_num b)"
| "loose_eq N (JBool a) (JStr t) = num_eq (bool_num a) (N t)"
| "loose_eq N (JStr s) (JBool b) = num_eq (N s) (bool_num b)"
| "loose_eq N a b = False"

fun is_primitive :: "jsval \<Rightarrow> bool" where
  "is_primitive (JArr xs) = False"
| "is_primitive (JObj kvs) = False"
| "is_primitive v = True"

text \<open>
  \<^verbatim>\<open>assert.deepEqual\<close> of Node (the legacy, loose comparison that
  \<^verbatim>\<open>import assert from "assert"\<close> gives): two primitives are equal when \<^verbatim>\<open>==\<close> says
  so or both are \<^verbatim>\<open>NaN\<close>; a primitive never equals an object or an array, nor an
  array an object; two arrays are equal when they have the same length and equal
  elements; two objects when they have the same number of keys, every key of the first is
  a key of the second, and the values under it are equal.
\<close>

fun deep_eq :: "(string \<Rightarrow> jsnum) \<Rightarrow> jsval \<Rightarrow> jsval \<Rightarrow> bool" where
  "deep_eq N (JArr xs) (JArr ys) = list_all2 (deep_eq N) xs ys"
| "deep_eq N (JObj xs) (JObj ys) =
     (length xs = length ys \<and>
      (\<forall>(k, v) \<in> set xs. case map_of ys k of None \<Rightarrow> False | Some v' \<Rightarrow> deep_eq N v v'))"
| "deep_eq N a b =
     (is_primitive a \<and> is_primitive b \<and>
      (loose_eq N a b \<or> (a = JNum NaN \<and> b = JNum NaN)))"

subsection \<open>Requests\<close>

record RequestOptions =
  params :: Matchable
  body :: Matchable
  headers :: Matchable

text \<open>The keys of \<^verbatim>\<open>RequestOptions\<close>, and \<^verbatim>\<open>options[key]\<close>.\<close>

datatype MatcherKey = HeadersKey | ParamsKey | BodyKey

fun options_at :: "RequestOptions \<Rightarrow> MatcherKey \<Rightarrow> Matchable" where
  "options_at opts HeadersKey = headers opts"
| "options_at opts ParamsKey = params opts"
| "options_at opts BodyKey = body opts"

text \<open>\<^verbatim>\<open>options[key] = value\<close>, as the object spread does for one own key.\<close>

fun options_put :: "RequestOptions \<Rightarrow> MatcherKey \<times> Matchable \<Rightarrow> RequestOptions" where
  "options_put opts (HeadersKey, v) = opts\<lparr>headers := v\<rparr>"
| "options_put opts (ParamsKey, v) = opts\<lparr>params := v\<rparr>"
| "options_put opts (BodyKey, v) = opts\<lparr>body := v\<rparr>"

definition no_options :: RequestOptions where
  "no_options = \<lparr>params = JUndefined, body = JUndefined, headers = JUndefined\<rparr>"

record Response =
  status :: int
  statusText :: "string option"
  data :: Matchable
  response_headers :: "(string \<times> string) list"

text \<open>
  The class \<^verbatim>\<open>Request\<close>. \<open>priv_uri\<close> and \<open>priv_response\<close> are the fields
  \<^verbatim>\<open>_uri\<close> and \<^verbatim>\<open>_response\<close> (the latter is what \<^verbatim>\<open>respondWith\<close> stores);
  \<open>exception\<close> holds the message of the \<^verbatim>\<open>Error\<close> to throw.
\<close>

record Request =
  request_method :: Method
  priv_uri :: "string option"
  options :: "RequestOptions option"
  exception :: "string option"
  priv_response :: "Response option"
  invocationCount :: int
  maxInvocationCount :: "int option"

definition new_Request :: "Method \<Rightarrow> Request" where
  "new_Request m =
     \<lparr>request_method = m, priv_uri = None, options = None, exception = None,
      priv_response = None, invocationCount = 0, maxInvocationCount = None\<rparr>"

definition to_uri :: "string \<Rightarrow> Request \<Rightarrow> Request" where
  "to_uri u r = r\<lparr>priv_uri := Some u\<rparr>"

text \<open>
  \<^verbatim>\<open>with(options)\<close> is \<^verbatim>\<open>this.options = { ...this.options, ...options }\<close>. The
  argument is the list of the own keys of the object passed, in their order, each with
  its value: every one of them overwrites what was there, also when its value is
  \<^verbatim>\<open>undefined\<close>; a key the object does not have keeps the old value.
\<close>

definition with_options :: "(MatcherKey \<times> Matchable) list \<Rightarrow> Request \<Rightarrow> Request" where
  "with_options new r =
     r\<lparr>options := Some (foldl options_put
                          (case options r of None \<Rightarrow> no_options | Some old \<Rightarrow> old) new)\<rparr>"

definition once :: "Request \<Rightarrow> Request" where
  "once r = r\<lparr>maxInvocationCount := Some 1\<rparr>"

definition timeout :: "Request \<Rightarrow> Request" where
  "timeout r = r\<lparr>exception := Some ''Timeout''\<rparr>"

text \<open>
  \<^verbatim>\<open>!this.maxInvocationCount || this.invocationCount < this.maxInvocationCount\<close>:
  \<^verbatim>\<open>!\<close> holds of \<^verbatim>\<open>undefined\<close> and of \<^verbatim>\<open>0\<close>.
\<close>

definition isInvokable :: "Request \<Rightarrow> bool" where
  "isInvokable r =
     (case maxInvocationCount r of
        None \<Rightarrow> True
      | Some m \<Rightarrow> m = 0 \<or> invocationCount r < m)"

definition uri :: "Request \<Rightarrow> string option" where
  "uri r = priv_uri r"

definition request_headers :: "Request \<Rightarrow> Matchable" where
  "request_headers r = (case options r of None \<Rightarrow> JUndefined | Some o1 \<Rightarrow> headers o1)"

definition request_body :: "Request \<Rightarrow> Matchable" where
  "request_body r = (case options r of None \<Rightarrow> JUndefined | Some o1 \<Rightarrow> body o1)"

definition request_params :: "Request \<Rightarrow> Matchable" where
  "request_params r = (case options r of None \<Rightarrow> JUndefined | Some o1 \<Rightarrow> params o1)"

text \<open>
  \<^verbatim>\<open>!!this.uri && (!!this._response || !!this.exception)\<close>: an empty URI is falsy; a
  response object and an \<^verbatim>\<open>Error\<close> are truthy whenever they are set.
\<close>

definition isValid :: "Request \<Rightarrow> bool" where
  "isValid r =
     ((case uri r of None \<Rightarrow> False | Some u \<Rightarrow> u \<noteq> []) \<and>
      (priv_response r \<noteq> None \<or> exception r \<noteq> None))"

record RequestJSON =
  json_method :: Method
  json_uri :: "string option"
  json_headers :: Matchable
  json_params :: Matchable
  json_body :: Matchable

definition toJSON :: "Request \<Rightarrow> RequestJSON" where
  "toJSON r =
     \<lparr>json_method = request_method r, json_uri = uri r, json_headers = request_headers r,
      json_params = request_params r, json_body = request_body r\<rparr>"

section \<open>Errors (errors.ts)\<close>

text \<open>
  \<^verbatim>\<open>config.data\<close> as the adapter sees it: falsy (\<open>NoData\<close>), a text that
  \<^verbatim>\<open>JSON.parse\<close> turns into a value (\<open>JsonData\<close> that value), or anything on which
  \<^verbatim>\<open>JSON.parse\<close> throws (\<open>NotJson\<close>).
\<close>

datatype AxiosData = NoData | JsonData Matchable | NotJson

record SerializedConfig =
  ser_baseURL :: "string option"
  ser_url :: "string option"
  ser_method :: Method
  ser_headers :: Matchable
  ser_params :: Matchable
  ser_data :: AxiosData

datatype AxiosErrorCode = ERR_BAD_REQUEST | ERR_BAD_RESPONSE

text \<open>
  Everything a dispatch can throw or reject with. \<open>ThrownError msg\<close> is the plain
  \<^verbatim>\<open>Error\<close> stored by \<^verbatim>\<open>timeout()\<close>; \<open>TypeError\<close> is what JavaScript raises
  when a verb has no entry in the registry, \<open>SyntaxError\<close> what \<^verbatim>\<open>JSON.parse\<close>
  throws.
\<close>

datatype error =
    InvalidRequestsError "RequestJSON list"
  | RequestNotFoundError SerializedConfig "RequestJSON list"
  | UnconfiguredResponseError Method "string option" "RequestOptions option"
  | ThrownError string
  | AxiosError int "AxiosErrorCode option" Response
  | SyntaxError
  | TypeError

text \<open>
  The getter \<^verbatim>\<open>response\<close>: it counts the invocation first, then throws or returns.
  The result is paired with the request as the getter leaves it.
\<close>

definition response :: "Request \<Rightarrow> (error + Response) \<times> Request" where
  "response r =
     (let r' = r\<lparr>invocationCount := invocationCount r + 1\<rparr> in
      case exception r' of
        Some msg \<Rightarrow> (Inl (ThrownError msg), r')
      | None \<Rightarrow>
          (case priv_response r' of
             None \<Rightarrow> (Inl (UnconfiguredResponseError (request_method r') (uri r') (options r')), r')
           | Some resp \<Rightarrow> (Inr resp, r')))"

text \<open>
  The requests the class can produce: a new one, and what the builder methods and the
  getter \<^verbatim>\<open>response\<close> make of one. \<^verbatim>\<open>respondWith\<close> stores a response, whatever its
  status and data. The fields are \<^verbatim>\<open>protected\<close>; nothing else writes them.
\<close>

inductive built :: "Request \<Rightarrow> bool" where
  built_new: "built (new_Request m)"
| built_to: "built r \<Longrightarrow> built (to_uri u r)"
| built_with: "built r \<Longrightarrow> built (with_options new r)"
| built_once: "built r \<Longrightarrow> built (once r)"
| built_timeout: "built r \<Longrightarrow> built (timeout r)"
| built_respondWith: "built r \<Longrightarrow> built (r\<lparr>priv_response := Some resp\<rparr>)"
| built_response: "built r \<Longrightarrow> built (snd (response r))"

section \<open>The matcher (request-matcher.ts)\<close>

definition eq :: "(string \<Rightarrow> jsnum) \<Rightarrow> Matchable \<Rightarrow> Matchable \<Rightarrow> bool" where
  "eq N expected actual = deep_eq N expected actual"

definition ok :: "(string \<Rightarrow> jsnum) \<Rightarrow> Matchable \<Rightarrow> Matchable \<Rightarrow> bool" where
  "ok N expected actual =
     (if \<not> truthy expected \<or> \<not> truthy actual then True else eq N expected actual)"

definition score :: "(string \<Rightarrow> jsnum) \<Rightarrow> Matchable \<Rightarrow> Matchable \<Rightarrow> int" where
  "score N expected actual =
     (let multiplier = (if truthy expected \<and> truthy actual then 2 else 0)
      in (if ok N expected actual then 1 else 0) * multiplier)"

definition matcherKeys :: "MatcherKey list" where
  "matcherKeys = [HeadersKey, ParamsKey, BodyKey]"

text \<open>\<^verbatim>\<open>this.request[key]\<close>.\<close>

fun request_at :: "Request \<Rightarrow> MatcherKey \<Rightarrow> Matchable" where
  "request_at r HeadersKey = request_headers r"
| "request_at r ParamsKey = request_params r"
| "request_at r BodyKey = request_body r"

text \<open>The four methods of \<^verbatim>\<open>FilterableRequest\<close>, on the request it wraps.\<close>

definition filterable_for :: "Request \<Rightarrow> string \<Rightarrow> bool" where
  "filterable_for r u = (uri r = Some u \<and> isInvokable r)"

definition filterable_pass :: "(string \<Rightarrow> jsnum) \<Rightarrow> Request \<Rightarrow> RequestOptions \<Rightarrow> bool" where
  "filterable_pass N r opts =
     foldl (\<lambda>k key. k \<and> (\<not> truthy (options_at opts key) \<or>
                            ok N (options_at opts key) (request_at r key)))
       True matcherKeys"

definition filterable_score :: "(string \<Rightarrow> jsnum) \<Rightarrow> Request \<Rightarrow> RequestOptions \<Rightarrow> int" where
  "filterable_score N r opts =
     foldl (\<lambda>sum key. sum + score N (request_at r key) (options_at opts key)) 0 matcherKeys"

definition filterable_eq :: "(string \<Rightarrow> jsnum) \<Rightarrow> Request \<Rightarrow> RequestOptions \<Rightarrow> bool" where
  "filterable_eq N r opts =
     (eq N (request_headers r) (headers opts) \<and>
      eq N (request_params r) (params opts) \<and>
      eq N (request_body r) (body opts))"

text \<open>
  \<^verbatim>\<open>matchFor\<close>. A request is an object, and the one returned is later mutated, so
  every request travels with its position in \<open>requests\<close> and the position is returned.
  \<^verbatim>\<open>Array.prototype.sort\<close> is stable, as \<open>sort_key\<close> is; the comparator
  \<^verbatim>\<open>b.score - a.score\<close> orders by descending score.
\<close>

definition matchFor ::
  "(string \<Rightarrow> jsnum) \<Rightarrow> Request list \<Rightarrow> MatchMode \<Rightarrow> string \<Rightarrow> RequestOptions option \<Rightarrow> nat option"
where
  "matchFor N requests md u opts =
     (let matchOptions = (case opts of None \<Rightarrow> no_options | Some o1 \<Rightarrow> o1);
          candidates = filter (\<lambda>(i, r). filterable_for r u) (enumerate 0 requests)
      in if md = Partial then
           (case sort_key (\<lambda>(i, r). - filterable_score N r matchOptions)
                   (filter (\<lambda>(i, r). filterable_pass N r matchOptions) candidates) of
              [] \<Rightarrow> None
            | (i, r) # rest \<Rightarrow> Some i)
         else
           (case find (\<lambda>(i, r). filterable_eq N r matchOptions) candidates of
              None \<Rightarrow> None
            | Some (i, r) \<Rightarrow> Some i))"

section \<open>Deep equality and strict matching in the words of the specification\<close>

text \<open>
  The specification: deep equality is structural, recursive, and order-independent for
  mapping keys. Two primitives are equal when they are the same value; as every key of an
  object occurs once, two objects with as many keys, where every key of the first is a
  key of the second, have the same keys.
\<close>

fun structural_eq :: "jsval \<Rightarrow> jsval \<Rightarrow> bool" where
  "structural_eq (JArr xs) (JArr ys) = list_all2 structural_eq xs ys"
| "structural_eq (JObj xs) (JObj ys) =
     (length xs = length ys \<and>
      (\<forall>(k, v) \<in> set xs. case map_of ys k of None \<Rightarrow> False | Some v' \<Rightarrow> structural_eq v v'))"
| "structural_eq a b = (is_primitive a \<and> is_primitive b \<and> a = b)"

text \<open>
  The specification's strict match of a definition with a call: the same URI, invokable,
  and headers, params and body each deep-equal, an absent field being \<open>JUndefined\<close>.
\<close>

definition strict_spec :: "Request \<Rightarrow> string \<Rightarrow> RequestOptions \<Rightarrow> bool" where
  "strict_spec r u opts =
     (uri r = Some u \<and> isInvokable r \<and>
      structural_eq (request_headers r) (headers opts) \<and>
      structural_eq (request_params r) (params opts) \<and>
      structural_eq (request_body r) (body opts))"

text \<open>
  The type of a value, and the pairs of values in which no primitive stands against a
  primitive of another type: at the top, at the same index of two arrays of one length,
  or under the same key of two objects. These are the comparisons in which \<^verbatim>\<open>==\<close>
  converts nothing.
\<close>

datatype jskind = KUndefined | KNull | KBoolean | KNumber | KString | KArray | KObject

fun kind :: "jsval \<Rightarrow> jskind" where
  "kind JUndefined = KUndefined"
| "kind JNull = KNull"
| "kind (JBool b) = KBoolean"
| "kind (JNum n) = KNumber"
| "kind (JStr s) = KString"
| "kind (JArr xs) = KArray"
| "kind (JObj kvs) = KObject"

fun same_types :: "jsval \<Rightarrow> jsval \<Rightarrow> bool" where
  "same_types (JArr xs) (JArr ys) = (length xs = length ys \<longrightarrow> list_all2 same_types xs ys)"
| "same_types (JObj xs) (JObj ys) =
     (\<forall>(k, v) \<in> set xs. case map_of ys k of None \<Rightarrow> True | Some v' \<Rightarrow> same_types v v')"
| "same_types a b = (is_primitive a \<and> is_primitive b \<longrightarrow> kind a = kind b)"

definition same_types_at :: "Request \<Rightarrow> RequestOptions \<Rightarrow> bool" where
  "same_types_at r opts =
     (same_types (request_headers r) (headers opts) \<and>
      same_types (request_params r) (params opts) \<and>
      same_types (request_body r) (body opts))"

section \<open>The mock (http-mock.ts, util.ts)\<close>

record AxiosRequestConfig =
  config_method :: Method
  baseURL :: "string option"
  url :: "string option"
  config_data :: AxiosData
  config_headers :: Matchable
  config_params :: Matchable
  validateStatus :: "(int \<Rightarrow> bool) option"

text \<open>
  \<open>config_headers\<close> holds the headers as \<^verbatim>\<open>extractRequestHeaders(config.headers)\<close>
  gives them, \<open>JUndefined\<close> when the configuration has none.
\<close>

definition joinUri :: "string option \<Rightarrow> string option \<Rightarrow> string" where
  "joinUri base remain =
     (let parts = (case base of
                     None \<Rightarrow> []
                   | Some b \<Rightarrow>
                       if b = [] then []
                       else [if last b = CHR ''/'' then butlast b else b])
      in concat (filter (\<lambda>e. e \<noteq> [])
           (parts @ (case remain of None \<Rightarrow> [] | Some e \<Rightarrow> [e]))))"

definition serializeConfig :: "AxiosRequestConfig \<Rightarrow> SerializedConfig" where
  "serializeConfig config =
     \<lparr>ser_baseURL = baseURL config, ser_url = url config, ser_method = config_method config,
      ser_headers = config_headers config, ser_params = config_params config,
      ser_data = config_data config\<rparr>"

text \<open>
  \<^verbatim>\<open>settle\<close>: reading \<^verbatim>\<open>request.response\<close> may throw, which rejects the promise;
  a status that is zero, a missing \<^verbatim>\<open>validateStatus\<close> or an accepted status resolves.
\<close>

definition settle :: "Request \<Rightarrow> AxiosRequestConfig \<Rightarrow> (error + Response) \<times> Request" where
  "settle request config =
     (case response request of
        (Inl e, request') \<Rightarrow> (Inl e, request')
      | (Inr resp, request') \<Rightarrow>
          (case validateStatus config of
             None \<Rightarrow> (Inr resp, request')
           | Some valid \<Rightarrow>
               if status resp = 0 \<or> valid (status resp) then (Inr resp, request')
               else (Inl (AxiosError (status resp)
                            (if status resp div 100 - 4 = 0 then Some ERR_BAD_REQUEST
                             else if status resp div 100 - 4 = 1 then Some ERR_BAD_RESPONSE
                             else None)
                            resp), request')))"

type_synonym MockRegistry = "(Method \<times> Request list) list"

record HttpMock =
  registry :: MockRegistry
  mode :: MatchMode

definition new_HttpMock :: "MatchMode option \<Rightarrow> HttpMock" where
  "new_HttpMock matching =
     \<lparr>registry = [(Get, []), (Post, []), (Put, []), (Delete, []), (Head, []), (Link, []),
                  (Options, []), (Patch, []), (Purge, []), (Unlink, [])],
      mode = (case matching of None \<Rightarrow> Strict | Some m \<Rightarrow> m)\<rparr>"

definition reset :: "HttpMock \<Rightarrow> HttpMock" where
  "reset h = h\<lparr>registry := map (\<lambda>(m, rs). (m, [])) (registry h)\<rparr>"

text \<open>\<^verbatim>\<open>on(method)\<close> returns the position of the new request in its verb's sequence.\<close>

definition on :: "HttpMock \<Rightarrow> Method \<Rightarrow> error + (nat \<times> HttpMock)" where
  "on h m =
     (case map_of (registry h) m of
        None \<Rightarrow> Inl TypeError
      | Some rs \<Rightarrow>
          Inr (length rs,
               h\<lparr>registry := AList.update m (rs @ [new_Request m]) (registry h)\<rparr>))"

text \<open>\<^verbatim>\<open>Object.values(this.registry).flat()\<close>.\<close>

definition all_requests :: "MockRegistry \<Rightarrow> Request list" where
  "all_requests reg = concat (map snd reg)"

text \<open>
  The two constants the adapter computes from the configuration before it matches:
  \<^verbatim>\<open>uri = joinUri(config.baseURL, config.url)\<close> and
  \<^verbatim>\<open>options = { body, headers, params: config.params }\<close>, where \<^verbatim>\<open>body\<close> is
  \<^verbatim>\<open>JSON.parse(config.data)\<close> when there is data.
\<close>

definition adapter_uri :: "AxiosRequestConfig \<Rightarrow> string" where
  "adapter_uri config = joinUri (baseURL config) (url config)"

definition adapter_options :: "AxiosRequestConfig \<Rightarrow> RequestOptions" where
  "adapter_options config =
     \<lparr>params = config_params config,
      body = (case config_data config of JsonData v \<Rightarrow> v | _ \<Rightarrow> JUndefined),
      headers = config_headers config\<rparr>"

text \<open>
  The adapter: one dispatch. It returns what the promise settles with (\<open>Inl\<close> a
  rejection or a thrown error) and the mock as the dispatch leaves it. After the
  validation the first thing that can throw is \<^verbatim>\<open>JSON.parse\<close>, then the matcher when
  the verb has no sequence.
\<close>

definition adapter ::
  "(string \<Rightarrow> jsnum) \<Rightarrow> HttpMock \<Rightarrow> AxiosRequestConfig \<Rightarrow> (error + Response) \<times> HttpMock"
where
  "adapter N h config =
     (let invalidRequests = filter (\<lambda>request. \<not> isValid request) (all_requests (registry h))
      in if length invalidRequests > 0 then
           (Inl (InvalidRequestsError (map toJSON invalidRequests)), h)
         else if config_data config = NotJson then (Inl SyntaxError, h)
         else
           (case map_of (registry h) (config_method config) of
              None \<Rightarrow> (Inl TypeError, h)
            | Some requests \<Rightarrow>
                (case matchFor N requests (mode h) (adapter_uri config)
                        (Some (adapter_options config)) of
                   None \<Rightarrow>
                     (Inl (RequestNotFoundError (serializeConfig config)
                             (map toJSON (all_requests (registry h)))), h)
                 | Some i \<Rightarrow>
                     (case settle (requests ! i) config of
                        (res, request') \<Rightarrow>
                          (res, h\<lparr>registry :=
                                   AList.update (config_method config)
                                     (requests[i := request']) (registry h)\<rparr>)))))"

section \<open>Sample registrations and calls\<close>

text \<open>
  \<^verbatim>\<open>ToNumber\<close> on the strings that occur in the samples: the empty string is 0,
  \<^verbatim>\<open>"1"\<close> is 1, \<^verbatim>\<open>"2"\<close> is 2, and the others are no numerals.
\<close>

definition sample_number :: "string \<Rightarrow> jsnum" where
  "sample_number s =
     (if s = [] then Finite 0 else if s = ''1'' then Finite 1
      else if s = ''2'' then Finite 2 else NaN)"

definition ok200 :: Response where
  "ok200 = \<lparr>status = 200, statusText = Some ''OK'',
            data = JObj [(''key'', JStr ''value'')], response_headers = []\<rparr>"

definition created201 :: Response where
  "created201 = \<lparr>status = 201, statusText = Some ''Created'',
                 data = JObj [(''key'', JStr ''other'')], response_headers = []\<rparr>"

text \<open>\<^verbatim>\<open>new Request("get").to("/path")\<close> with the response set by \<^verbatim>\<open>respondWith(200, ...)\<close>.\<close>

definition get_path :: Request where
  "get_path = (to_uri ''/path'' (new_Request Get))\<lparr>priv_response := Some ok200\<rparr>"

text \<open>
  \<^verbatim>\<open>on(method)\<close> followed by the builder calls that leave the new request as \<open>r\<close>:
  \<open>r\<close> is appended to the sequence of its verb.
\<close>

definition registered :: "Request \<Rightarrow> HttpMock \<Rightarrow> HttpMock" where
  "registered r h =
     h\<lparr>registry := map (\<lambda>(m, rs). if m = request_method r then (m, rs @ [r]) else (m, rs))
                      (registry h)\<rparr>"

text \<open>\<^verbatim>\<open>on("post").to("/submit")\<close>: no response and no exception yet.\<close>

definition post_incomplete :: Request where
  "post_incomplete = to_uri ''/submit'' (new_Request Post)"

text \<open>The call \<^verbatim>\<open>GET /path\<close> with no headers, no params and no body.\<close>

definition get_call :: AxiosRequestConfig where
  "get_call = \<lparr>config_method = Get, baseURL = None, url = Some ''/path'', config_data = NoData,
               config_headers = JUndefined, config_params = JUndefined,
               validateStatus = None\<rparr>"

definition mock_with_incomplete :: HttpMock where
  "mock_with_incomplete = registered post_incomplete (registered get_path (new_HttpMock None))"

text \<open>
  \<^verbatim>\<open>on("get").to("/path").respondWith(200, ...).once().timeout()\<close>: a definition
  limited to one invocation whose outcome is the timeout (it also has a response).
\<close>

definition get_timeout :: Request where
  "get_timeout = timeout (once get_path)"

definition timeout_mock :: HttpMock where
  "timeout_mock = registered get_timeout (new_HttpMock None)"

text \<open>
  Two definitions for the same call, each limited to one invocation: the first answers
  200, the second 201. \<open>once_mock_used\<close> is their sequence after the first dispatch.
\<close>

definition get_created_once :: Request where
  "get_created_once = once (get_path\<lparr>priv_response := Some created201\<rparr>)"

definition once_mock :: HttpMock where
  "once_mock = registered get_created_once (registered (once get_path) (new_HttpMock None))"

definition once_mock_used :: "Request list" where
  "once_mock_used = [(once get_path)\<lparr>invocationCount := 1\<rparr>, get_created_once]"

definition get_path_mock :: HttpMock where
  "get_path_mock = registered get_path (new_HttpMock None)"

definition post_call :: AxiosRequestConfig where
  "post_call = get_call\<lparr>config_method := Post\<rparr>"

text \<open>
  A definition that asks for the header \<^verbatim>\<open>Accept: application/json\<close>, a call that
  sends it, and a call to a URI nothing is registered for.
\<close>

definition accept_json :: jsval where
  "accept_json = JObj [(''Accept'', JStr ''application/json'')]"

definition get_accept :: Request where
  "get_accept = with_options [(HeadersKey, accept_json)] get_path"

definition accept_mock :: HttpMock where
  "accept_mock = registered get_accept (new_HttpMock None)"

definition accept_call :: AxiosRequestConfig where
  "accept_call = get_call\<lparr>config_headers := accept_json\<rparr>"

definition missing_call :: AxiosRequestConfig where
  "missing_call = get_call\<lparr>url := Some ''/missing''\<rparr>"

text \<open>
  \<^verbatim>\<open>with({ headers: undefined })\<close> on the definition above: the key is there, its value
  is \<^verbatim>\<open>undefined\<close>, and the spread puts it over the headers asked for before.
\<close>

definition get_accept_erased :: Request where
  "get_accept_erased = with_options [(HeadersKey, JUndefined)] get_accept"

text \<open>
  Query parameters: \<^verbatim>\<open>{a, b}\<close> in two key orders, \<^verbatim>\<open>{a}\<close> and \<^verbatim>\<open>{a, c}\<close>; a
  definition that asks for \<^verbatim>\<open>{a, b}\<close>.
\<close>

definition params_ab :: jsval where
  "params_ab = JObj [(''a'', JStr ''1''), (''b'', JStr ''2'')]"

definition params_ba :: jsval where
  "params_ba = JObj [(''b'', JStr ''2''), (''a'', JStr ''1'')]"

definition params_a :: jsval where
  "params_a = JObj [(''a'', JStr ''1'')]"

definition params_ac :: jsval where
  "params_ac = JObj [(''a'', JStr ''1''), (''c'', JStr ''2'')]"

definition get_ab :: Request where
  "get_ab = with_options [(ParamsKey, params_ab)] get_path"

definition params_only :: "jsval \<Rightarrow> RequestOptions" where
  "params_only p = no_options\<lparr>params := p\<rparr>"

text \<open>
  A definition that asks for the parameter \<^verbatim>\<open>{page: 1}\<close>, a number, and the
  parameters \<^verbatim>\<open>{page: "1"}\<close>, a string.
\<close>

definition get_page :: Request where
  "get_page = with_options [(ParamsKey, JObj [(''page'', JNum (Finite 1))])] get_path"

definition page_text :: RequestOptions where
  "page_text = params_only (JObj [(''page'', JStr ''1'')])"

text \<open>
  A call whose data is the JSON text \<^verbatim>\<open>null\<close>.
\<close>

definition null_body_call :: AxiosRequestConfig where
  "null_body_call = get_call\<lparr>config_data := JsonData JNull\<rparr>"

text \<open>
  \<^verbatim>\<open>with({ body: "" })\<close>: a definition whose configured body is the empty string and
  which answers 201, registered after the generic definition \<open>get_path\<close> in a mock with
  partial matching; calls whose data is the JSON text \<^verbatim>\<open>"x"\<close> and \<^verbatim>\<open>""\<close>, and
  their attributes.
\<close>

definition get_empty_body :: Request where
  "get_empty_body =
     with_options [(BodyKey, JStr '''')] (get_path\<lparr>priv_response := Some created201\<rparr>)"

definition body_x :: RequestOptions where
  "body_x = no_options\<lparr>body := JStr ''x''\<rparr>"

definition body_empty :: RequestOptions where
  "body_empty = no_options\<lparr>body := JStr ''''\<rparr>"

definition empty_body_mock :: HttpMock where
  "empty_body_mock = registered get_empty_body (new_HttpMock (Some Partial))"

definition generic_then_empty_body_mock :: HttpMock where
  "generic_then_empty_body_mock =
     registered get_empty_body (registered get_path (new_HttpMock (Some Partial)))"

definition body_x_call :: AxiosRequestConfig where
  "body_x_call = get_call\<lparr>config_data := JsonData (JStr ''x'')\<rparr>"

definition body_empty_call :: AxiosRequestConfig where
  "body_empty_call = get_call\<lparr>config_data := JsonData (JStr '''')\<rparr>"

text \<open>
  The generic definition \<open>get_path\<close> and a later, more specific one that asks for the
  parameters \<^verbatim>\<open>{q: "v"}\<close> and answers 201, in a mock with partial matching.
\<close>

definition params_qv :: jsval where
  "params_qv = JObj [(''q'', JStr ''v'')]"

definition get_specific :: Request where
  "get_specific =
     with_options [(ParamsKey, params_qv)] (get_path\<lparr>priv_response := Some created201\<rparr>)"

definition partial_mock :: HttpMock where
  "partial_mock = registered get_specific (registered get_path (new_HttpMock (Some Partial)))"

definition qv_call :: AxiosRequestConfig where
  "qv_call = get_call\<lparr>config_params := params_qv\<rparr>"

section \<open>Lists: the first hit of a search, the head of a stable sort\<close>

lemma find_filter: "find P (filter Q xs) = find (\<lambda>x. Q x \<and> P x) xs"
  by (induction xs) auto

lemma find_enumerate_Some:
  "find P (enumerate 0 xs) = Some (i, r) \<longleftrightarrow>
     i < length xs \<and> r = xs ! i \<and> P (i, xs ! i) \<and> (\<forall>j<i. \<not> P (j, xs ! j))"
  by (auto simp: find_Some_iff nth_enumerate_eq)

lemma find_enumerate_None:
  "find P (enumerate 0 xs) = None \<longleftrightarrow> (\<forall>j<length xs. \<not> P (j, xs ! j))"
  by (auto simp: find_None_iff in_set_enumerate_eq)

lemma sort_key_Nil_iff: "sort_key f xs = [] \<longleftrightarrow> xs = []"
proof
  assume "sort_key f xs = []"
  then have "length (sort_key f xs) = 0" by simp
  then show "xs = []" by simp
next
  assume "xs = []"
  then show "sort_key f xs = []" by simp
qed

lemma sort_key_head:
  assumes "sort_key f xs = y # ys"
  shows "y \<in> set xs"
    and "\<forall>x\<in>set xs. f y \<le> f x"
    and "\<exists>zs. filter (\<lambda>x. f x = f y) xs = y # zs"
proof -
  have "set (sort_key f xs) = set xs" by simp
  with assms show "y \<in> set xs" by auto
  have "sorted (map f (sort_key f xs))" by (rule sorted_sort_key)
  with assms have "\<forall>x\<in>set ys. f y \<le> f x" by simp
  moreover have "set xs = insert y (set ys)"
    using assms set_sort [of f xs] by simp
  ultimately show "\<forall>x\<in>set xs. f y \<le> f x" by simp
  have "filter (\<lambda>x. f x = f y) xs = filter (\<lambda>x. f x = f y) (sort_key f xs)"
    by (rule sort_key_stable [symmetric])
  also have "\<dots> = y # filter (\<lambda>x. f x = f y) ys"
    using assms by simp
  finally show "\<exists>zs. filter (\<lambda>x. f x = f y) xs = y # zs" by blast
qed

lemma filter_enumerate_first:
  assumes "filter Q (enumerate 0 xs) = (i, r) # zs"
    and "j < length xs" and "Q (j, xs ! j)"
  shows "i \<le> j"
proof -
  have "sorted (map fst (enumerate 0 xs))" by simp
  then have "sorted (map fst (filter Q (enumerate 0 xs)))" by (rule sorted_filter)
  with assms(1) have le: "\<forall>p\<in>set zs. i \<le> fst p" by simp
  have "(j, xs ! j) \<in> set (filter Q (enumerate 0 xs))"
    using assms(2,3) by (simp add: in_set_enumerate_eq)
  with assms(1) have "(j, xs ! j) = (i, r) \<or> (j, xs ! j) \<in> set zs" by simp
  with le show ?thesis by auto
qed

section \<open>What \<open>matchFor\<close> returns\<close>

lemma matchFor_strict_unfold:
  "matchFor N requests Strict u (Some opts) =
     (case find (\<lambda>(i, r). filterable_for r u \<and> filterable_eq N r opts) (enumerate 0 requests) of
        None \<Rightarrow> None
      | Some (i, r) \<Rightarrow> Some i)"
  by (simp add: matchFor_def find_filter case_prod_unfold)

lemma matchFor_strict_Some:
  "matchFor N requests Strict u (Some opts) = Some i \<longleftrightarrow>
     i < length requests \<and>
     filterable_for (requests ! i) u \<and> filterable_eq N (requests ! i) opts \<and>
     (\<forall>j<i. \<not> (filterable_for (requests ! j) u \<and> filterable_eq N (requests ! j) opts))"
proof -
  let ?P = "\<lambda>(i, r). filterable_for r u \<and> filterable_eq N r opts"
  note m = matchFor_strict_unfold [of N requests u opts]
  show ?thesis
  proof (cases "find ?P (enumerate 0 requests)")
    case None
    then have "matchFor N requests Strict u (Some opts) = None" using m by simp
    moreover from None have "\<forall>j<length requests. \<not> ?P (j, requests ! j)"
      by (simp add: find_enumerate_None)
    ultimately show ?thesis by auto
  next
    case (Some p)
    obtain k r where p: "p = (k, r)" by (cases p)
    with Some have "find ?P (enumerate 0 requests) = Some (k, r)" by simp
    then have k: "k < length requests" "?P (k, requests ! k)" "\<forall>j<k. \<not> ?P (j, requests ! j)"
      by (simp_all add: find_enumerate_Some)
    have "matchFor N requests Strict u (Some opts) = Some k" using m Some p by simp
    moreover have "i = k"
      if "i < length requests" "?P (i, requests ! i)" "\<forall>j<i. \<not> ?P (j, requests ! j)"
      using that k by (meson linorder_neqE_nat)
    ultimately show ?thesis using k by auto
  qed
qed

lemma matchFor_strict_None:
  "matchFor N requests Strict u (Some opts) = None \<longleftrightarrow>
     (\<forall>j<length requests.
        \<not> (filterable_for (requests ! j) u \<and> filterable_eq N (requests ! j) opts))"
proof -
  let ?P = "\<lambda>(i, r). filterable_for r u \<and> filterable_eq N r opts"
  have "matchFor N requests Strict u (Some opts) = None \<longleftrightarrow>
          find ?P (enumerate 0 requests) = None"
    unfolding matchFor_strict_unfold by (simp split: option.splits)
  then show ?thesis by (simp add: find_enumerate_None)
qed

lemma matchFor_partial_unfold:
  "matchFor N requests Partial u (Some opts) =
     (case sort_key (\<lambda>(i, r). - filterable_score N r opts)
             (filter (\<lambda>(i, r). filterable_for r u \<and> filterable_pass N r opts)
                (enumerate 0 requests)) of
        [] \<Rightarrow> None
      | (i, r) # rest \<Rightarrow> Some i)"
  by (simp add: matchFor_def case_prod_unfold)

lemma matchFor_partial_Some:
  assumes "matchFor N requests Partial u (Some opts) = Some i"
  shows "i < length requests"
    and "filterable_for (requests ! i) u"
    and "filterable_pass N (requests ! i) opts"
    and "\<forall>j<length requests.
           filterable_for (requests ! j) u \<and> filterable_pass N (requests ! j) opts \<longrightarrow>
           filterable_score N (requests ! j) opts \<le> filterable_score N (requests ! i) opts \<and>
           (filterable_score N (requests ! j) opts = filterable_score N (requests ! i) opts \<longrightarrow>
            i \<le> j)"
proof -
  let ?Q = "\<lambda>(i, r). filterable_for r u \<and> filterable_pass N r opts"
  let ?f = "\<lambda>(i :: nat, r). - filterable_score N r opts"
  let ?L = "filter ?Q (enumerate 0 requests)"
  from assms obtain r rest where srt: "sort_key ?f ?L = (i, r) # rest"
    unfolding matchFor_partial_unfold by (auto split: list.splits)
  from sort_key_head(1) [OF srt] have mem: "(i, r) \<in> set ?L" .
  then show i: "i < length requests"
    by (simp add: in_set_enumerate_eq)
  from mem have r: "r = requests ! i"
    by (auto simp: in_set_enumerate_eq)
  from mem r show "filterable_for (requests ! i) u" and "filterable_pass N (requests ! i) opts"
    by auto
  from sort_key_head(2) [OF srt] have least: "\<forall>x\<in>set ?L. ?f (i, r) \<le> ?f x" .
  from sort_key_head(3) [OF srt] obtain zs
    where "filter (\<lambda>x. ?f x = ?f (i, r)) ?L = (i, r) # zs" by blast
  then have first: "filter (\<lambda>x. ?Q x \<and> ?f x = ?f (i, r)) (enumerate 0 requests) = (i, r) # zs"
    by simp
  show "\<forall>j<length requests.
           filterable_for (requests ! j) u \<and> filterable_pass N (requests ! j) opts \<longrightarrow>
           filterable_score N (requests ! j) opts \<le> filterable_score N (requests ! i) opts \<and>
           (filterable_score N (requests ! j) opts = filterable_score N (requests ! i) opts \<longrightarrow>
            i \<le> j)"
  proof (intro allI impI conjI)
    fix j
    assume j: "j < length requests"
      and q: "filterable_for (requests ! j) u \<and> filterable_pass N (requests ! j) opts"
    from j q have "(j, requests ! j) \<in> set ?L"
      by (simp add: in_set_enumerate_eq)
    with least have "?f (i, r) \<le> ?f (j, requests ! j)" by blast
    then show "filterable_score N (requests ! j) opts \<le> filterable_score N (requests ! i) opts"
      using r by simp
    assume "filterable_score N (requests ! j) opts = filterable_score N (requests ! i) opts"
    with q r have "(\<lambda>x. ?Q x \<and> ?f x = ?f (i, r)) (j, requests ! j)" by simp
    with first j show "i \<le> j" by (rule filter_enumerate_first)
  qed
qed

lemma matchFor_partial_None:
  "matchFor N requests Partial u (Some opts) = None \<longleftrightarrow>
     (\<forall>j<length requests.
        \<not> (filterable_for (requests ! j) u \<and> filterable_pass N (requests ! j) opts))"
proof -
  let ?Q = "\<lambda>(i, r). filterable_for r u \<and> filterable_pass N r opts"
  let ?f = "\<lambda>(i :: nat, r). - filterable_score N r opts"
  let ?L = "filter ?Q (enumerate 0 requests)"
  have "matchFor N requests Partial u (Some opts) = None \<longleftrightarrow> sort_key ?f ?L = []"
    unfolding matchFor_partial_unfold by (auto split: list.splits)
  also have "\<dots> \<longleftrightarrow> ?L = []"
    by (rule sort_key_Nil_iff)
  also have "\<dots> \<longleftrightarrow> (\<forall>j<length requests. \<not> ?Q (j, requests ! j))"
    by (auto simp: filter_empty_conv in_set_enumerate_eq)
  finally show ?thesis by simp
qed

lemma matchFor_bound: "matchFor N requests md u (Some opts) = Some i \<Longrightarrow> i < length requests"
  by (cases md) (simp_all add: matchFor_strict_Some matchFor_partial_Some(1))

section \<open>What a materialization leaves behind\<close>

lemma response_snd: "snd (response r) = r\<lparr>invocationCount := invocationCount r + 1\<rparr>"
  by (simp add: response_def Let_def split: option.splits)

lemma settle_snd: "snd (settle r config) = r\<lparr>invocationCount := invocationCount r + 1\<rparr>"
proof -
  obtain res r' where rr: "response r = (res, r')" by (cases "response r")
  with response_snd [of r] have "r' = r\<lparr>invocationCount := invocationCount r + 1\<rparr>" by simp
  with rr show ?thesis
    by (simp add: settle_def split: sum.splits option.splits)
qed

section \<open>One dispatch, case by case\<close>

lemma adapter_invalid:
  assumes "r \<in> set (all_requests (registry h))" and "\<not> isValid r"
  shows "adapter N h config =
           (Inl (InvalidRequestsError
                   (map toJSON (filter (\<lambda>x. \<not> isValid x) (all_requests (registry h))))), h)"
proof -
  from assms have "r \<in> set (filter (\<lambda>x. \<not> isValid x) (all_requests (registry h)))"
    by simp
  then have "filter (\<lambda>x. \<not> isValid x) (all_requests (registry h)) \<noteq> []"
    by (metis empty_iff empty_set)
  then show ?thesis
    by (simp add: adapter_def Let_def)
qed

lemma adapter_not_json:
  assumes "\<forall>r\<in>set (all_requests (registry h)). isValid r"
    and "config_data config = NotJson"
  shows "adapter N h config = (Inl SyntaxError, h)"
proof -
  from assms(1) have "filter (\<lambda>x. \<not> isValid x) (all_requests (registry h)) = []"
    by (simp add: filter_empty_conv)
  with assms(2) show ?thesis
    by (simp add: adapter_def Let_def)
qed

lemma adapter_valid:
  assumes "\<forall>r\<in>set (all_requests (registry h)). isValid r"
    and "config_data config \<noteq> NotJson"
  shows "adapter N h config =
           (case map_of (registry h) (config_method config) of
              None \<Rightarrow> (Inl TypeError, h)
            | Some requests \<Rightarrow>
                (case matchFor N requests (mode h) (adapter_uri config)
                        (Some (adapter_options config)) of
                   None \<Rightarrow>
                     (Inl (RequestNotFoundError (serializeConfig config)
                             (map toJSON (all_requests (registry h)))), h)
                 | Some i \<Rightarrow>
                     (fst (settle (requests ! i) config),
                      h\<lparr>registry :=
                          AList.update (config_method config)
                            (requests[i := (requests ! i)
                               \<lparr>invocationCount := invocationCount (requests ! i) + 1\<rparr>])
                            (registry h)\<rparr>)))"
proof -
  from assms(1) have "filter (\<lambda>x. \<not> isValid x) (all_requests (registry h)) = []"
    by (simp add: filter_empty_conv)
  with assms(2) show ?thesis
    by (simp add: adapter_def Let_def case_prod_beta settle_snd split: option.splits)
qed

lemma adapter_registry:
  "snd (adapter N h config) = h \<or>
   (\<exists>requests i.
      map_of (registry h) (config_method config) = Some requests \<and>
      matchFor N requests (mode h) (adapter_uri config) (Some (adapter_options config)) = Some i \<and>
      i < length requests \<and>
      snd (adapter N h config) =
        h\<lparr>registry :=
            AList.update (config_method config)
              (requests[i := (requests ! i)
                 \<lparr>invocationCount := invocationCount (requests ! i) + 1\<rparr>])
              (registry h)\<rparr>)"
proof (cases "\<forall>r\<in>set (all_requests (registry h)). isValid r")
  case False
  then obtain r where "r \<in> set (all_requests (registry h))" "\<not> isValid r" by blast
  then show ?thesis by (simp add: adapter_invalid)
next
  case True
  show ?thesis
  proof (cases "config_data config = NotJson")
    case True
    with \<open>\<forall>r\<in>set (all_requests (registry h)). isValid r\<close> show ?thesis
      by (simp add: adapter_not_json)
  next
    case json: False
    show ?thesis
    proof (cases "map_of (registry h) (config_method config)")
      case None
      with True json show ?thesis by (simp add: adapter_valid)
    next
      case (Some requests)
      show ?thesis
      proof (cases "matchFor N requests (mode h) (adapter_uri config)
                      (Some (adapter_options config))")
        case None
        with True json Some show ?thesis by (simp add: adapter_valid)
      next
        case (Some i)
        then have "i < length requests" by (rule matchFor_bound)
        with True json \<open>map_of (registry h) (config_method config) = Some requests\<close> Some
        show ?thesis by (simp add: adapter_valid)
      qed
    qed
  qed
qed

lemma settle_not_registry_error:
  "fst (settle r config) \<noteq> Inl (InvalidRequestsError js)"
  "fst (settle r config) \<noteq> Inl (RequestNotFoundError c js)"
  by (auto simp: settle_def response_def Let_def split: option.splits if_splits)

section \<open>Validation comes first\<close>

text \<open>
  C1. If some definition in the sequence of some verb has no URI or no outcome (neither a
  response nor an exception), then every dispatch, whatever its verb, its URI, its
  attributes and the match mode, raises \<open>InvalidRequestsError\<close> and leaves the mock
  as it was; the error lists exactly the definitions that fail \<open>isValid\<close>, and every
  incomplete definition of every verb is among them. The result does not depend on the
  call, so no matching has taken place.
\<close>

theorem invalid_definitions_first:
  assumes "(m, rs) \<in> set (registry h)" and "r \<in> set rs"
    and "uri r = None \<or> (priv_response r = None \<and> exception r = None)"
  shows "adapter N h config =
           (Inl (InvalidRequestsError
                   (map toJSON (filter (\<lambda>x. \<not> isValid x) (all_requests (registry h))))), h) \<and>
         (\<forall>(m', rs') \<in> set (registry h). \<forall>x \<in> set rs'.
            uri x = None \<or> (priv_response x = None \<and> exception x = None) \<longrightarrow>
            toJSON x \<in> set (map toJSON
                              (filter (\<lambda>x. \<not> isValid x) (all_requests (registry h)))))"
proof
  from assms(1,2) have mem: "r \<in> set (all_requests (registry h))"
    by (force simp: all_requests_def)
  from assms(3) have "\<not> isValid r"
    by (auto simp: isValid_def)
  with mem show "adapter N h config =
           (Inl (InvalidRequestsError
                   (map toJSON (filter (\<lambda>x. \<not> isValid x) (all_requests (registry h))))), h)"
    by (rule adapter_invalid)
  show "\<forall>(m', rs') \<in> set (registry h). \<forall>x \<in> set rs'.
            uri x = None \<or> (priv_response x = None \<and> exception x = None) \<longrightarrow>
            toJSON x \<in> set (map toJSON
                              (filter (\<lambda>x. \<not> isValid x) (all_requests (registry h))))"
  proof (intro ballI impI, clarify)
    fix m' rs' x
    assume "(m', rs') \<in> set (registry h)" "x \<in> set rs'"
      and inc: "uri x = None \<or> (priv_response x = None \<and> exception x = None)"
    then have "x \<in> set (all_requests (registry h))"
      by (force simp: all_requests_def)
    moreover from inc have "\<not> isValid x" by (auto simp: isValid_def)
    ultimately show "toJSON x \<in> set (map toJSON
                              (filter (\<lambda>x. \<not> isValid x) (all_requests (registry h))))"
      by simp
  qed
qed

text \<open>
  The theorem at work: an incomplete \<^verbatim>\<open>post\<close> definition makes a \<^verbatim>\<open>get\<close> call fail,
  although the only \<^verbatim>\<open>get\<close> definition is complete and would match.
\<close>

theorem invalid_definitions_first_witness:
  "(Post, [post_incomplete]) \<in> set (registry mock_with_incomplete) \<and>
   uri post_incomplete = Some ''/submit'' \<and> priv_response post_incomplete = None \<and>
   exception post_incomplete = None \<and>
   map_of (registry mock_with_incomplete) Get = Some [get_path] \<and> isValid get_path \<and>
   adapter sample_number mock_with_incomplete get_call =
     (Inl (InvalidRequestsError [toJSON post_incomplete]), mock_with_incomplete)"
  using invalid_definitions_first
    [where m = Post and rs = "[post_incomplete]" and h = mock_with_incomplete
       and r = post_incomplete and config = get_call and N = sample_number]
  by (simp add: mock_with_incomplete_def registered_def new_HttpMock_def post_incomplete_def
      get_path_def to_uri_def new_Request_def uri_def isValid_def all_requests_def)

section \<open>Failure outcomes\<close>

text \<open>
  C6. A definition whose outcome is a failure (its \<open>exception\<close> is set) never yields a
  response: reading \<^verbatim>\<open>response\<close> throws the stored error with its cause, \<^verbatim>\<open>settle\<close>
  rejects with it, and so does every dispatch that selects the definition. This holds even
  when the definition has a response configured as well.
\<close>

theorem failure_always_raises:
  assumes "exception r = Some cause"
  shows "fst (response r) = Inl (ThrownError cause) \<and>
         fst (settle r config) = Inl (ThrownError cause) \<and>
         (\<forall>resp. fst (response r) \<noteq> Inr resp \<and> fst (settle r config) \<noteq> Inr resp) \<and>
         ((\<forall>x\<in>set (all_requests (registry h)). isValid x) \<and>
          config_data config \<noteq> NotJson \<and>
          map_of (registry h) (config_method config) = Some requests \<and>
          matchFor N requests (mode h) (adapter_uri config) (Some (adapter_options config)) = Some i \<and>
          requests ! i = r \<longrightarrow>
          fst (adapter N h config) = Inl (ThrownError cause))"
proof -
  from assms have r: "fst (response r) = Inl (ThrownError cause)"
    by (simp add: response_def Let_def)
  then have s: "fst (settle r config) = Inl (ThrownError cause)"
    by (cases "response r") (simp add: settle_def)
  have "fst (adapter N h config) = Inl (ThrownError cause)"
    if "\<forall>x\<in>set (all_requests (registry h)). isValid x"
      and "config_data config \<noteq> NotJson"
      and "map_of (registry h) (config_method config) = Some requests"
      and "matchFor N requests (mode h) (adapter_uri config) (Some (adapter_options config)) = Some i"
      and "requests ! i = r"
    using that s by (simp add: adapter_valid)
  with r s show ?thesis by simp
qed

text \<open>The only failure the builder offers is \<^verbatim>\<open>timeout()\<close>, with the cause "Timeout".\<close>

theorem failure_always_raises_witness:
  "exception get_timeout = Some ''Timeout'' \<and> priv_response get_timeout = Some ok200 \<and>
   fst (response get_timeout) = Inl (ThrownError ''Timeout'') \<and>
   fst (settle get_timeout get_call) = Inl (ThrownError ''Timeout'') \<and>
   fst (adapter sample_number timeout_mock get_call) = Inl (ThrownError ''Timeout'')"
proof -
  have sel: "matchFor sample_number [get_timeout] Strict ''/path''
               (Some \<lparr>params = JUndefined, body = JUndefined, headers = JUndefined\<rparr>) = Some 0"
    by (simp add: matchFor_strict_Some filterable_for_def filterable_eq_def eq_def
        get_timeout_def timeout_def once_def get_path_def to_uri_def new_Request_def uri_def
        isInvokable_def request_headers_def request_params_def request_body_def)
  show ?thesis
    using failure_always_raises
      [where r = get_timeout and cause = "''Timeout''" and config = get_call and h = timeout_mock
         and requests = "[get_timeout]" and i = 0 and N = sample_number] sel
    by (simp add: timeout_mock_def registered_def new_HttpMock_def get_timeout_def timeout_def
        once_def get_path_def to_uri_def new_Request_def uri_def isValid_def all_requests_def
        get_call_def adapter_uri_def adapter_options_def joinUri_def)
qed

section \<open>Invocation accounting\<close>

lemma once_exhausted:
  "maxInvocationCount r = Some 1 \<Longrightarrow> 1 \<le> invocationCount r \<Longrightarrow> \<not> filterable_for r u"
  by (simp add: filterable_for_def isInvokable_def)

lemma adapter_counts:
  assumes "map_of (registry h) m = Some rs"
  shows "\<exists>rs'. map_of (registry (snd (adapter N h config))) m = Some rs' \<and>
               length rs' = length rs \<and>
               (\<forall>j<length rs. invocationCount (rs ! j) \<le> invocationCount (rs' ! j) \<and>
                               maxInvocationCount (rs' ! j) = maxInvocationCount (rs ! j))"
proof -
  from adapter_registry [of N h config] show ?thesis
  proof
    assume "snd (adapter N h config) = h"
    with assms show ?thesis by simp
  next
    assume "\<exists>requests i.
      map_of (registry h) (config_method config) = Some requests \<and>
      matchFor N requests (mode h) (adapter_uri config) (Some (adapter_options config)) = Some i \<and>
      i < length requests \<and>
      snd (adapter N h config) =
        h\<lparr>registry :=
            AList.update (config_method config)
              (requests[i := (requests ! i)
                 \<lparr>invocationCount := invocationCount (requests ! i) + 1\<rparr>])
              (registry h)\<rparr>"
    then obtain requests i where sel:
      "map_of (registry h) (config_method config) = Some requests"
      "i < length requests"
      "snd (adapter N h config) =
        h\<lparr>registry :=
            AList.update (config_method config)
              (requests[i := (requests ! i)
                 \<lparr>invocationCount := invocationCount (requests ! i) + 1\<rparr>])
              (registry h)\<rparr>"
      by blast
    show ?thesis
    proof (cases "m = config_method config")
      case True
      with assms sel(1) have "requests = rs" by simp
      with True sel show ?thesis
        by (simp add: update_conv' nth_list_update)
    next
      case False
      with assms sel show ?thesis
        by (simp add: update_conv')
    qed
  qed
qed

lemma on_keeps:
  assumes "on h verb = Inr (k, h')" and "map_of (registry h) m = Some requests"
  shows "\<exists>rs'. map_of (registry h') m = Some rs' \<and> take (length requests) rs' = requests"
proof -
  from assms(1) obtain rs where rs: "map_of (registry h) verb = Some rs"
    and h': "h' = h\<lparr>registry := AList.update verb (rs @ [new_Request verb]) (registry h)\<rparr>"
    by (auto simp: on_def split: option.splits)
  show ?thesis
  proof (cases "m = verb")
    case True
    with assms(2) rs h' show ?thesis by (simp add: update_conv')
  next
    case False
    with assms(2) h' show ?thesis by (simp add: update_conv')
  qed
qed

text \<open>
  C5. A definition limited by \<^verbatim>\<open>once()\<close> is a candidate for a call to its URI while
  its count is zero, and is no candidate for any URI, and is never returned by
  \<open>matchFor\<close>, once it has been materialized. Every materialization (the getter
  \<^verbatim>\<open>response\<close>, and \<^verbatim>\<open>settle\<close> which reads it) adds exactly one to the count and
  leaves the limit alone; the builder methods leave the count alone; a dispatch leaves
  every definition of every verb in place with a count that is at least what it was; and
  \<^verbatim>\<open>on\<close> leaves the definitions it finds as they are. (\<^verbatim>\<open>reset\<close> only removes
  definitions.)
\<close>

theorem once_and_invocation_count:
  "(invocationCount r = 0 \<longrightarrow> (filterable_for (once r) u \<longleftrightarrow> uri r = Some u)) \<and>
   (0 \<le> invocationCount r \<longrightarrow> \<not> filterable_for (snd (response (once r))) u) \<and>
   (maxInvocationCount r = Some 1 \<and> 1 \<le> invocationCount r \<longrightarrow> \<not> filterable_for r u) \<and>
   (i < length rs \<and> maxInvocationCount (rs ! i) = Some 1 \<and> 1 \<le> invocationCount (rs ! i) \<longrightarrow>
      matchFor N rs md u (Some opts) \<noteq> Some i) \<and>
   invocationCount (snd (response r)) = invocationCount r + 1 \<and>
   invocationCount (snd (settle r config)) = invocationCount r + 1 \<and>
   maxInvocationCount (snd (response r)) = maxInvocationCount r \<and>
   invocationCount (to_uri u r) = invocationCount r \<and>
   invocationCount (with_options os r) = invocationCount r \<and>
   invocationCount (once r) = invocationCount r \<and>
   invocationCount (timeout r) = invocationCount r \<and>
   (map_of (registry h) m = Some requests \<longrightarrow>
      (\<exists>rs'. map_of (registry (snd (adapter N h config))) m = Some rs' \<and>
             length rs' = length requests \<and>
             (\<forall>j<length requests.
                invocationCount (requests ! j) \<le> invocationCount (rs' ! j) \<and>
                maxInvocationCount (rs' ! j) = maxInvocationCount (requests ! j)))) \<and>
   (on h verb = Inr (k, h') \<and> map_of (registry h) m = Some requests \<longrightarrow>
      (\<exists>rs'. map_of (registry h') m = Some rs' \<and> take (length requests) rs' = requests))"
proof (intro conjI impI)
  show "filterable_for (once r) u \<longleftrightarrow> uri r = Some u" if "invocationCount r = 0"
    using that by (simp add: filterable_for_def isInvokable_def once_def uri_def)
  show "\<not> filterable_for (snd (response (once r))) u" if "0 \<le> invocationCount r"
    using that by (intro once_exhausted) (simp_all add: response_snd once_def)
  show "\<not> filterable_for r u" if "maxInvocationCount r = Some 1 \<and> 1 \<le> invocationCount r"
    using that by (simp add: once_exhausted)
  show "matchFor N rs md u (Some opts) \<noteq> Some i"
    if h: "i < length rs \<and> maxInvocationCount (rs ! i) = Some 1 \<and> 1 \<le> invocationCount (rs ! i)"
  proof
    assume "matchFor N rs md u (Some opts) = Some i"
    then have "filterable_for (rs ! i) u"
      by (cases md) (simp_all add: matchFor_strict_Some matchFor_partial_Some(2))
    with h show False by (simp add: once_exhausted)
  qed
  show "invocationCount (snd (response r)) = invocationCount r + 1"
    and "maxInvocationCount (snd (response r)) = maxInvocationCount r"
    by (simp_all add: response_snd)
  show "invocationCount (snd (settle r config)) = invocationCount r + 1"
    by (simp add: settle_snd)
  show "invocationCount (to_uri u r) = invocationCount r"
    and "invocationCount (with_options os r) = invocationCount r"
    and "invocationCount (once r) = invocationCount r"
    and "invocationCount (timeout r) = invocationCount r"
    by (simp_all add: to_uri_def with_options_def once_def timeout_def Let_def)
  show "\<exists>rs'. map_of (registry (snd (adapter N h config))) m = Some rs' \<and>
             length rs' = length requests \<and>
             (\<forall>j<length requests.
                invocationCount (requests ! j) \<le> invocationCount (rs' ! j) \<and>
                maxInvocationCount (rs' ! j) = maxInvocationCount (requests ! j))"
    if "map_of (registry h) m = Some requests"
    using that by (rule adapter_counts)
  show "\<exists>rs'. map_of (registry h') m = Some rs' \<and> take (length requests) rs' = requests"
    if "on h verb = Inr (k, h') \<and> map_of (registry h) m = Some requests"
    using that by (auto intro: on_keeps)
qed

text \<open>
  The scenario of the two \<^verbatim>\<open>once()\<close> definitions: the first dispatch answers 200, the
  second 201, the third finds no match.
\<close>

theorem once_and_invocation_count_witness:
  "invocationCount get_path = 0 \<and> uri get_path = Some ''/path'' \<and>
   filterable_for (once get_path) ''/path'' \<and>
   \<not> filterable_for (snd (response (once get_path))) ''/path'' \<and>
   invocationCount (snd (response (once get_path))) = 1 \<and>
   map_of (registry once_mock) Get = Some [once get_path, get_created_once] \<and>
   on once_mock Post = Inr (0, registered (new_Request Post) once_mock) \<and>
   map_of (registry (registered (new_Request Post) once_mock)) Get =
     Some [once get_path, get_created_once] \<and>
   fst (adapter sample_number once_mock get_call) = Inr ok200 \<and>
   map_of (registry (snd (adapter sample_number once_mock get_call))) Get = Some once_mock_used \<and>
   maxInvocationCount (once_mock_used ! 0) = Some 1 \<and>
   invocationCount (once_mock_used ! 0) = 1 \<and>
   matchFor sample_number once_mock_used Strict ''/path'' (Some no_options) = Some 1 \<and>
   fst (adapter sample_number (snd (adapter sample_number once_mock get_call)) get_call) = Inr created201 \<and>
   fst (adapter sample_number (snd (adapter sample_number (snd (adapter sample_number once_mock get_call)) get_call)) get_call) =
     Inl (RequestNotFoundError (serializeConfig get_call)
            [toJSON (once get_path), toJSON get_created_once])"
proof -
  have dispatches:
    "on once_mock Post = Inr (0, registered (new_Request Post) once_mock)"
    "map_of (registry (registered (new_Request Post) once_mock)) Get =
       Some [once get_path, get_created_once]"
    "fst (adapter sample_number once_mock get_call) = Inr ok200"
    "map_of (registry (snd (adapter sample_number once_mock get_call))) Get = Some once_mock_used"
    "matchFor sample_number once_mock_used Strict ''/path'' (Some no_options) = Some 1"
    "fst (adapter sample_number (snd (adapter sample_number once_mock get_call)) get_call) = Inr created201"
    "fst (adapter sample_number (snd (adapter sample_number (snd (adapter sample_number once_mock get_call)) get_call)) get_call) =
       Inl (RequestNotFoundError (serializeConfig get_call)
              [toJSON (once get_path), toJSON get_created_once])"
    by code_simp+
  show ?thesis
    using once_and_invocation_count
      [where r = get_path and u = "''/path''" and i = 0 and rs = once_mock_used
         and md = Strict and opts = no_options and config = get_call
         and os = "[(HeadersKey, accept_json)]" and N = sample_number
         and h = once_mock and m = Get and requests = "[once get_path, get_created_once]"
         and verb = Post and k = 0 and h' = "registered (new_Request Post) once_mock"]
      dispatches
    by (simp add: once_mock_def once_mock_used_def registered_def new_HttpMock_def
        get_created_once_def once_def get_path_def to_uri_def new_Request_def
        filterable_for_def uri_def isInvokable_def response_def)
qed

text \<open>
  C10. The getter \<^verbatim>\<open>response\<close> counts the invocation before it looks at the outcome:
  the count goes up by one on every path, also when it throws the stored error or
  \<open>UnconfiguredResponseError\<close>. So a \<^verbatim>\<open>once()\<close> definition with a failure outcome
  throws on its first materialization and is no candidate afterwards.
\<close>

theorem raising_materialization_consumes_invocation:
  "snd (response r) = r\<lparr>invocationCount := invocationCount r + 1\<rparr> \<and>
   (exception r = Some cause \<longrightarrow>
      response r = (Inl (ThrownError cause), r\<lparr>invocationCount := invocationCount r + 1\<rparr>)) \<and>
   (exception r = None \<and> priv_response r = None \<longrightarrow>
      response r = (Inl (UnconfiguredResponseError (request_method r) (uri r) (options r)),
                    r\<lparr>invocationCount := invocationCount r + 1\<rparr>)) \<and>
   (exception r = Some cause \<and> 0 \<le> invocationCount r \<longrightarrow>
      fst (response (once r)) = Inl (ThrownError cause) \<and>
      (\<forall>u. \<not> filterable_for (snd (response (once r))) u))"
proof (intro conjI impI)
  show "snd (response r) = r\<lparr>invocationCount := invocationCount r + 1\<rparr>"
    by (rule response_snd)
  show "response r = (Inl (ThrownError cause), r\<lparr>invocationCount := invocationCount r + 1\<rparr>)"
    if "exception r = Some cause"
    using that by (simp add: response_def Let_def)
  show "response r = (Inl (UnconfiguredResponseError (request_method r) (uri r) (options r)),
                      r\<lparr>invocationCount := invocationCount r + 1\<rparr>)"
    if "exception r = None \<and> priv_response r = None"
    using that by (simp add: response_def Let_def uri_def)
  show "fst (response (once r)) = Inl (ThrownError cause)"
    if "exception r = Some cause \<and> 0 \<le> invocationCount r"
    using that by (simp add: response_def Let_def once_def)
  show "\<forall>u. \<not> filterable_for (snd (response (once r))) u"
    if "exception r = Some cause \<and> 0 \<le> invocationCount r"
  proof
    fix u
    from that have "maxInvocationCount (snd (response (once r))) = Some 1"
      and "1 \<le> invocationCount (snd (response (once r)))"
      by (simp_all add: response_snd once_def)
    then show "\<not> filterable_for (snd (response (once r))) u"
      by (rule once_exhausted)
  qed
qed

text \<open>A \<^verbatim>\<open>once()\<close> timeout: the first dispatch times out, the second finds no match.\<close>

theorem raising_materialization_consumes_invocation_witness:
  "exception (timeout get_path) = Some ''Timeout'' \<and> invocationCount (timeout get_path) = 0 \<and>
   response (once (timeout get_path)) =
     (Inl (ThrownError ''Timeout''), (once (timeout get_path))\<lparr>invocationCount := 1\<rparr>) \<and>
   filterable_for (once (timeout get_path)) ''/path'' \<and>
   \<not> filterable_for (snd (response (once (timeout get_path)))) ''/path'' \<and>
   fst (adapter sample_number timeout_mock get_call) = Inl (ThrownError ''Timeout'') \<and>
   fst (adapter sample_number (snd (adapter sample_number timeout_mock get_call)) get_call) =
     Inl (RequestNotFoundError (serializeConfig get_call) [toJSON get_timeout])"
proof -
  have dispatches:
    "fst (adapter sample_number timeout_mock get_call) = Inl (ThrownError ''Timeout'')"
    "fst (adapter sample_number (snd (adapter sample_number timeout_mock get_call)) get_call) =
       Inl (RequestNotFoundError (serializeConfig get_call) [toJSON get_timeout])"
    by code_simp+
  show ?thesis
    using raising_materialization_consumes_invocation
      [of "timeout get_path" "''Timeout''"] dispatches
    by (simp add: timeout_def once_def get_path_def to_uri_def new_Request_def
        filterable_for_def uri_def isInvokable_def response_def)
qed

section \<open>What a dispatch changes\<close>

text \<open>
  C9. A dispatch that raises \<open>InvalidRequestsError\<close> or \<open>RequestNotFoundError\<close>
  returns the mock unchanged. Any dispatch either returns the mock unchanged or returns
  it with one change: in the sequence of the call's verb, the definition at the position
  \<open>matchFor\<close> selected has its count increased by one.
\<close>

theorem dispatch_mutates_only_selected_count:
  assumes "adapter N h config = (res, h')"
  shows "((\<exists>js. res = Inl (InvalidRequestsError js)) \<or>
          (\<exists>c js. res = Inl (RequestNotFoundError c js)) \<longrightarrow> h' = h) \<and>
         (h' = h \<or>
          (\<exists>requests i.
             map_of (registry h) (config_method config) = Some requests \<and>
             matchFor N requests (mode h) (adapter_uri config) (Some (adapter_options config)) =
               Some i \<and>
             i < length requests \<and>
             h' = h\<lparr>registry :=
                      AList.update (config_method config)
                        (requests[i := (requests ! i)
                           \<lparr>invocationCount := invocationCount (requests ! i) + 1\<rparr>])
                        (registry h)\<rparr>))"
proof
  show "(\<exists>js. res = Inl (InvalidRequestsError js)) \<or>
        (\<exists>c js. res = Inl (RequestNotFoundError c js)) \<longrightarrow> h' = h"
  proof (cases "\<forall>r\<in>set (all_requests (registry h)). isValid r")
    case False
    then obtain r where "r \<in> set (all_requests (registry h))" "\<not> isValid r" by blast
    with assms show ?thesis by (simp add: adapter_invalid)
  next
    case True
    show ?thesis
    proof (cases "config_data config = NotJson")
      case True
      with \<open>\<forall>r\<in>set (all_requests (registry h)). isValid r\<close> assms show ?thesis
        by (simp add: adapter_not_json)
    next
      case json: False
      show ?thesis
      proof (cases "map_of (registry h) (config_method config)")
        case None
        with True json assms show ?thesis by (simp add: adapter_valid)
      next
        case (Some requests)
        show ?thesis
        proof (cases "matchFor N requests (mode h) (adapter_uri config)
                        (Some (adapter_options config))")
          case None
          with True json Some assms show ?thesis by (simp add: adapter_valid)
        next
          case (Some i)
          with True json \<open>map_of (registry h) (config_method config) = Some requests\<close> assms
          have "res = fst (settle (requests ! i) config)"
            by (simp add: adapter_valid)
          then show ?thesis
            by (simp add: settle_not_registry_error)
        qed
      qed
    qed
  qed
  from adapter_registry [of N h config] assms
  show "h' = h \<or>
          (\<exists>requests i.
             map_of (registry h) (config_method config) = Some requests \<and>
             matchFor N requests (mode h) (adapter_uri config) (Some (adapter_options config)) =
               Some i \<and>
             i < length requests \<and>
             h' = h\<lparr>registry :=
                      AList.update (config_method config)
                        (requests[i := (requests ! i)
                           \<lparr>invocationCount := invocationCount (requests ! i) + 1\<rparr>])
                        (registry h)\<rparr>)"
    by simp
qed

text \<open>An invalid registry, a call without a match, and a call that is answered.\<close>

theorem dispatch_mutates_only_selected_count_witness:
  "adapter sample_number mock_with_incomplete get_call =
     (Inl (InvalidRequestsError [toJSON post_incomplete]), mock_with_incomplete) \<and>
   adapter sample_number get_path_mock post_call =
     (Inl (RequestNotFoundError (serializeConfig post_call) [toJSON get_path]), get_path_mock) \<and>
   adapter sample_number once_mock get_call =
     (Inr ok200, once_mock\<lparr>registry := AList.update Get once_mock_used (registry once_mock)\<rparr>) \<and>
   snd (adapter sample_number once_mock get_call) \<noteq> once_mock"
proof -
  have runs:
    "adapter sample_number mock_with_incomplete get_call =
       (Inl (InvalidRequestsError [toJSON post_incomplete]), mock_with_incomplete)"
    "adapter sample_number get_path_mock post_call =
       (Inl (RequestNotFoundError (serializeConfig post_call) [toJSON get_path]), get_path_mock)"
    "adapter sample_number once_mock get_call =
       (Inr ok200, once_mock\<lparr>registry := AList.update Get once_mock_used (registry once_mock)\<rparr>)"
    by code_simp+
  have changed: "once_mock\<lparr>registry := AList.update Get once_mock_used (registry once_mock)\<rparr> \<noteq> once_mock"
    by code_simp
  show ?thesis
    using dispatch_mutates_only_selected_count [OF runs(1)]
      dispatch_mutates_only_selected_count [OF runs(2)]
      dispatch_mutates_only_selected_count [OF runs(3)] runs changed
    by simp
qed

section \<open>Reset\<close>

lemma reset_all_requests: "all_requests (registry (reset h)) = []"
  by (simp add: all_requests_def reset_def case_prod_unfold)

lemma reset_map_of:
  "map_of (registry (reset h)) m = map_option (\<lambda>rs. []) (map_of (registry h) m)"
proof -
  have "map_of (map (\<lambda>(m, rs). (m, [])) xs) m = map_option (\<lambda>rs. []) (map_of xs m)"
    for xs :: MockRegistry
    by (induction xs) auto
  then show ?thesis by (simp add: reset_def)
qed

lemma matchFor_Nil: "matchFor N [] md u opts = None"
  by (simp add: matchFor_def Let_def)

text \<open>
  C7. \<^verbatim>\<open>reset()\<close> keeps the verbs of the registry, in their order, and empties the
  sequence of each; the mode stays. A dispatch right after it, for any call whose verb has
  a sequence in the registry and whose data, if any, parses as JSON (so for every call
  that matched before), raises \<open>RequestNotFoundError\<close>.
\<close>

theorem reset_empties_registry:
  "map fst (registry (reset h)) = map fst (registry h) \<and>
   (\<forall>(m, rs) \<in> set (registry (reset h)). rs = []) \<and>
   mode (reset h) = mode h \<and>
   (map_of (registry h) (config_method config) = Some requests \<and>
    config_data config \<noteq> NotJson \<longrightarrow>
      adapter N (reset h) config =
        (Inl (RequestNotFoundError (serializeConfig config) []), reset h))"
proof (intro conjI impI)
  show "map fst (registry (reset h)) = map fst (registry h)"
    by (simp add: reset_def case_prod_unfold)
  show "\<forall>(m, rs) \<in> set (registry (reset h)). rs = []"
    by (auto simp: reset_def)
  show "mode (reset h) = mode h"
    by (simp add: reset_def)
  assume a: "map_of (registry h) (config_method config) = Some requests \<and>
    config_data config \<noteq> NotJson"
  then have "map_of (registry (reset h)) (config_method config) = Some []"
    by (simp add: reset_map_of)
  moreover have "\<forall>r\<in>set (all_requests (registry (reset h))). isValid r"
    by (simp add: reset_all_requests)
  moreover from a have "config_data config \<noteq> NotJson" by simp
  ultimately show "adapter N (reset h) config =
        (Inl (RequestNotFoundError (serializeConfig config) []), reset h)"
    by (simp add: adapter_valid matchFor_Nil reset_all_requests)
qed

text \<open>A call that is answered before the reset and finds no match after it.\<close>

theorem reset_empties_registry_witness:
  "map_of (registry get_path_mock) (config_method get_call) = Some [get_path] \<and>
   fst (adapter sample_number get_path_mock get_call) = Inr ok200 \<and>
   map fst (registry (reset get_path_mock)) =
     [Get, Post, Put, Delete, Head, Link, Options, Patch, Purge, Unlink] \<and>
   all_requests (registry (reset get_path_mock)) = [] \<and>
   adapter sample_number (reset get_path_mock) get_call =
     (Inl (RequestNotFoundError (serializeConfig get_call) []), reset get_path_mock)"
proof -
  have before: "fst (adapter sample_number get_path_mock get_call) = Inr ok200"
    by code_simp
  show ?thesis
    using reset_empties_registry
      [where h = get_path_mock and config = get_call and requests = "[get_path]"
         and N = sample_number] before
    by (simp add: get_path_mock_def registered_def new_HttpMock_def get_path_def to_uri_def
        new_Request_def get_call_def reset_all_requests)
qed

section \<open>The invocation limit\<close>

lemma built_limit:
  "built r \<Longrightarrow> maxInvocationCount r = None \<or> maxInvocationCount r = Some 1"
  by (induction rule: built.induct)
    (auto simp: new_Request_def to_uri_def with_options_def once_def timeout_def response_snd)

text \<open>
  C8. A request is invokable exactly when its limit is unset or its count is below its
  limit. This holds for every count and every limit other than 0, and 0 is no limit a
  request can have: the limit is a protected field, a new request has none, and the only
  method that writes it is \<^verbatim>\<open>once()\<close>, which sets it to 1. So the equivalence holds
  for every request the class can produce, whatever its count.
\<close>

theorem isInvokable_iff:
  "(maxInvocationCount r \<noteq> Some 0 \<longrightarrow>
      (isInvokable r \<longleftrightarrow>
         maxInvocationCount r = None \<or>
         (\<exists>m. maxInvocationCount r = Some m \<and> invocationCount r < m))) \<and>
   (built r \<longrightarrow>
      (maxInvocationCount r = None \<or> maxInvocationCount r = Some 1) \<and>
      (isInvokable r \<longleftrightarrow>
         maxInvocationCount r = None \<or>
         (\<exists>m. maxInvocationCount r = Some m \<and> invocationCount r < m)))"
proof (intro conjI impI)
  show nonzero: "isInvokable r \<longleftrightarrow>
         maxInvocationCount r = None \<or>
         (\<exists>m. maxInvocationCount r = Some m \<and> invocationCount r < m)"
    if "maxInvocationCount r \<noteq> Some 0"
    using that by (cases "maxInvocationCount r") (auto simp: isInvokable_def)
  assume "built r"
  then show limit: "maxInvocationCount r = None \<or> maxInvocationCount r = Some 1"
    by (rule built_limit)
  then have "maxInvocationCount r \<noteq> Some 0" by auto
  then show "isInvokable r \<longleftrightarrow>
         maxInvocationCount r = None \<or>
         (\<exists>m. maxInvocationCount r = Some m \<and> invocationCount r < m)"
    by (rule nonzero)
qed

text \<open>
  A definition without a limit, one limited by \<^verbatim>\<open>once()\<close> before its first
  materialization, and the same one after it.
\<close>

theorem isInvokable_iff_witness:
  "built get_path \<and> maxInvocationCount get_path = None \<and> isInvokable get_path \<and>
   built (once get_path) \<and> maxInvocationCount (once get_path) = Some 1 \<and>
   invocationCount (once get_path) = 0 \<and> isInvokable (once get_path) \<and>
   built (snd (response (once get_path))) \<and>
   maxInvocationCount (snd (response (once get_path))) = Some 1 \<and>
   invocationCount (snd (response (once get_path))) = 1 \<and>
   \<not> isInvokable (snd (response (once get_path)))"
proof -
  have b: "built get_path"
    unfolding get_path_def by (intro built.intros)
  then have o: "built (once get_path)" by (rule built_once)
  then have m: "built (snd (response (once get_path)))" by (rule built_response)
  have fields:
    "maxInvocationCount get_path = None"
    "maxInvocationCount (once get_path) = Some 1"
    "invocationCount (once get_path) = 0"
    "maxInvocationCount (snd (response (once get_path))) = Some 1"
    "invocationCount (snd (response (once get_path))) = 1"
    by (simp_all add: response_snd once_def get_path_def to_uri_def new_Request_def)
  show ?thesis
    using isInvokable_iff [of get_path] isInvokable_iff [of "once get_path"]
      isInvokable_iff [of "snd (response (once get_path))"] b o m fields
    by simp
qed

section \<open>The object spread of \<^verbatim>\<open>with\<close>\<close>

text \<open>
  A key passed with the value \<^verbatim>\<open>undefined\<close> erases what was asked for before: the
  definition then matches the call without headers in strict mode. A key that is not
  passed keeps its value.
\<close>

lemma with_undefined_erases:
  "request_headers get_accept = accept_json \<and>
   request_headers get_accept_erased = JUndefined \<and>
   matchFor sample_number [get_accept_erased] Strict ''/path'' (Some (adapter_options get_call)) =
     Some 0 \<and>
   request_headers (with_options [(ParamsKey, params_a)] get_accept) = accept_json \<and>
   request_params (with_options [(ParamsKey, params_a)] get_accept) = params_a"
  by code_simp

section \<open>Deep equality: the code's and the specification's\<close>

lemma num_eq_iff: "num_eq a b \<or> (a = NaN \<and> b = NaN) \<longleftrightarrow> a = b"
  by (cases a; cases b) simp_all

lemma loose_eq_same_kind:
  "(is_primitive a \<and> is_primitive b \<longrightarrow> kind a = kind b) \<Longrightarrow>
   (is_primitive a \<and> is_primitive b \<and> (loose_eq N a b \<or> (a = JNum NaN \<and> b = JNum NaN))) =
   (is_primitive a \<and> is_primitive b \<and> a = b)"
  using num_eq_iff by (cases a; cases b) auto

lemma deep_eq_structural:
  "same_types a b \<Longrightarrow> deep_eq N a b = structural_eq a b"
proof (induction a b rule: same_types.induct)
  case (1 xs ys)
  show ?case
  proof (cases "length xs = length ys")
    case True
    with 1 have "list_all2 same_types xs ys" by simp
    then have "list_all2 (deep_eq N) xs ys = list_all2 structural_eq xs ys"
      using 1(1) True
      by (auto simp: list_all2_conv_all_nth)
    then show ?thesis by simp
  next
    case False
    then show ?thesis by (auto dest: list_all2_lengthD)
  qed
next
  case (2 xs ys)
  have "(case map_of ys k of None \<Rightarrow> False | Some v' \<Rightarrow> deep_eq N v v') =
        (case map_of ys k of None \<Rightarrow> False | Some v' \<Rightarrow> structural_eq v v')"
    if "(k, v) \<in> set xs" for k v
  proof (cases "map_of ys k")
    case None
    then show ?thesis by simp
  next
    case (Some v')
    moreover from 2(2) that Some have "same_types v v'" by fastforce
    ultimately show ?thesis using 2(1) [OF that refl] by simp
  qed
  then show ?case by auto
qed (simp_all only: same_types.simps deep_eq.simps structural_eq.simps loose_eq_same_kind)

lemma deep_eq_undefined:
  "deep_eq N JUndefined v \<longleftrightarrow> v = JUndefined \<or> v = JNull"
  "deep_eq N v JUndefined \<longleftrightarrow> v = JUndefined \<or> v = JNull"
  by (cases v; simp)+

lemma structural_eq_undefined:
  "structural_eq JUndefined v \<longleftrightarrow> v = JUndefined"
  "structural_eq v JUndefined \<longleftrightarrow> v = JUndefined"
  by (cases v; auto)+

text \<open>
  Where a primitive meets a primitive of another type the code's equality is wider than
  the structural one: the number 1 equals the string \<^verbatim>\<open>"1"\<close>, and \<^verbatim>\<open>null\<close> equals an
  absent value. So in strict mode the definition that asks for \<^verbatim>\<open>{page: 1}\<close> is
  returned for a call with \<^verbatim>\<open>{page: "1"}\<close>, and the definition without a body for a
  call whose body is \<^verbatim>\<open>null\<close>.
\<close>

lemma loose_equality_matches:
  "\<not> same_types (request_params get_page) (params page_text) \<and>
   \<not> structural_eq (request_params get_page) (params page_text) \<and>
   deep_eq sample_number (request_params get_page) (params page_text) \<and>
   matchFor sample_number [get_page] Strict ''/path'' (Some page_text) = Some 0 \<and>
   body (adapter_options null_body_call) = JNull \<and> request_body get_path = JUndefined \<and>
   \<not> same_types (request_body get_path) (body (adapter_options null_body_call)) \<and>
   \<not> structural_eq (request_body get_path) (body (adapter_options null_body_call)) \<and>
   matchFor sample_number [get_path] Strict ''/path'' (Some (adapter_options null_body_call)) =
     Some 0"
  by code_simp

section \<open>Strict matching\<close>

lemma strict_spec_iff:
  "same_types_at r opts \<Longrightarrow>
   filterable_for r u \<and> filterable_eq N r opts \<longleftrightarrow> strict_spec r u opts"
  by (auto simp: same_types_at_def filterable_for_def filterable_eq_def eq_def strict_spec_def
      deep_eq_structural)

text \<open>
  C2, as amended. In strict mode \<open>matchFor\<close> returns the first position of the verb's
  sequence whose definition has exactly the call's URI, is invokable, and has headers,
  params and body each equal to the call's by the matcher's \<open>eq\<close>; it returns nothing
  exactly when there is no such definition. Where no primitive of a definition stands
  against a primitive of another type in the call, \<open>eq\<close> is the deep equality of the
  specification, and the definition returned is the first that matches the call in the
  specification's sense. Two absent values are equal; an absent value equals no string,
  number, boolean, array or object. When the matcher returns nothing, the dispatch raises
  \<open>RequestNotFoundError\<close> and changes nothing, provided it gets as far as the matcher:
  every definition of the registry is valid, the call's data (if any) parses as JSON, and
  the verb has a sequence.
\<close>

theorem strict_match_first_exact:
  "(matchFor N requests Strict u (Some opts) = Some i \<longleftrightarrow>
      i < length requests \<and>
      filterable_for (requests ! i) u \<and> filterable_eq N (requests ! i) opts \<and>
      (\<forall>j<i. \<not> (filterable_for (requests ! j) u \<and> filterable_eq N (requests ! j) opts))) \<and>
   (matchFor N requests Strict u (Some opts) = None \<longleftrightarrow>
      (\<forall>j<length requests.
         \<not> (filterable_for (requests ! j) u \<and> filterable_eq N (requests ! j) opts))) \<and>
   (filterable_for r u \<and> filterable_eq N r opts \<longleftrightarrow>
      uri r = Some u \<and> isInvokable r \<and>
      deep_eq N (request_headers r) (headers opts) \<and>
      deep_eq N (request_params r) (params opts) \<and>
      deep_eq N (request_body r) (body opts)) \<and>
   (same_types a b \<longrightarrow> (deep_eq N a b \<longleftrightarrow> structural_eq a b)) \<and>
   ((\<forall>j<length requests. same_types_at (requests ! j) opts) \<longrightarrow>
      (matchFor N requests Strict u (Some opts) = Some i \<longleftrightarrow>
         i < length requests \<and> strict_spec (requests ! i) u opts \<and>
         (\<forall>j<i. \<not> strict_spec (requests ! j) u opts)) \<and>
      (matchFor N requests Strict u (Some opts) = None \<longleftrightarrow>
         (\<forall>j<length requests. \<not> strict_spec (requests ! j) u opts))) \<and>
   structural_eq JUndefined JUndefined \<and> deep_eq N JUndefined JUndefined \<and>
   (v \<noteq> JUndefined \<longrightarrow> \<not> structural_eq JUndefined v \<and> \<not> structural_eq v JUndefined) \<and>
   (v \<noteq> JUndefined \<and> v \<noteq> JNull \<longrightarrow> \<not> deep_eq N JUndefined v \<and> \<not> deep_eq N v JUndefined) \<and>
   (mode h = Strict \<and> (\<forall>x\<in>set (all_requests (registry h)). isValid x) \<and>
    config_data config \<noteq> NotJson \<and>
    map_of (registry h) (config_method config) = Some rs \<and>
    matchFor N rs Strict (adapter_uri config) (Some (adapter_options config)) = None \<longrightarrow>
    adapter N h config =
      (Inl (RequestNotFoundError (serializeConfig config)
              (map toJSON (all_requests (registry h)))), h))"
proof (intro conjI impI)
  show "matchFor N requests Strict u (Some opts) = Some i \<longleftrightarrow>
      i < length requests \<and>
      filterable_for (requests ! i) u \<and> filterable_eq N (requests ! i) opts \<and>
      (\<forall>j<i. \<not> (filterable_for (requests ! j) u \<and> filterable_eq N (requests ! j) opts))"
    by (rule matchFor_strict_Some)
  show "matchFor N requests Strict u (Some opts) = None \<longleftrightarrow>
      (\<forall>j<length requests.
         \<not> (filterable_for (requests ! j) u \<and> filterable_eq N (requests ! j) opts))"
    by (rule matchFor_strict_None)
  show "filterable_for r u \<and> filterable_eq N r opts \<longleftrightarrow>
      uri r = Some u \<and> isInvokable r \<and>
      deep_eq N (request_headers r) (headers opts) \<and>
      deep_eq N (request_params r) (params opts) \<and>
      deep_eq N (request_body r) (body opts)"
    by (simp add: filterable_for_def filterable_eq_def eq_def)
  show "deep_eq N a b \<longleftrightarrow> structural_eq a b" if "same_types a b"
    using that by (rule deep_eq_structural)
  show "structural_eq JUndefined JUndefined" and "deep_eq N JUndefined JUndefined"
    by simp_all
  show "\<not> structural_eq JUndefined v" and "\<not> structural_eq v JUndefined" if "v \<noteq> JUndefined"
    using that by (simp_all only: structural_eq_undefined simp_thms)
  show "\<not> deep_eq N JUndefined v" and "\<not> deep_eq N v JUndefined"
    if "v \<noteq> JUndefined \<and> v \<noteq> JNull"
    using that by (simp_all only: deep_eq_undefined simp_thms)
  show "adapter N h config =
      (Inl (RequestNotFoundError (serializeConfig config)
              (map toJSON (all_requests (registry h)))), h)"
    if "mode h = Strict \<and> (\<forall>x\<in>set (all_requests (registry h)). isValid x) \<and>
        config_data config \<noteq> NotJson \<and>
        map_of (registry h) (config_method config) = Some rs \<and>
        matchFor N rs Strict (adapter_uri config) (Some (adapter_options config)) = None"
    using that by (simp add: adapter_valid)
  assume same: "\<forall>j<length requests. same_types_at (requests ! j) opts"
  have hit: "filterable_for (requests ! j) u \<and> filterable_eq N (requests ! j) opts \<longleftrightarrow>
             strict_spec (requests ! j) u opts" if "j < length requests" for j
    using same that by (simp add: strict_spec_iff)
  show "matchFor N requests Strict u (Some opts) = None \<longleftrightarrow>
         (\<forall>j<length requests. \<not> strict_spec (requests ! j) u opts)"
    unfolding matchFor_strict_None using hit by blast
  show "matchFor N requests Strict u (Some opts) = Some i \<longleftrightarrow>
         i < length requests \<and> strict_spec (requests ! i) u opts \<and>
         (\<forall>j<i. \<not> strict_spec (requests ! j) u opts)"
  proof (cases "i < length requests")
    case True
    then have "\<forall>j<i. (filterable_for (requests ! j) u \<and> filterable_eq N (requests ! j) opts) =
                     strict_spec (requests ! j) u opts"
      using hit by simp
    with True hit [OF True] show ?thesis
      unfolding matchFor_strict_Some by blast
  next
    case False
    then show ?thesis
      unfolding matchFor_strict_Some by simp
  qed
qed

text \<open>
  The definition that asks for the \<^verbatim>\<open>Accept\<close> header answers the call that sends it;
  the call without headers finds no match.
\<close>

theorem strict_match_first_exact_witness:
  "mode accept_mock = Strict \<and> isValid get_accept \<and>
   map_of (registry accept_mock) Get = Some [get_accept] \<and>
   request_headers get_accept = accept_json \<and> accept_json \<noteq> JUndefined \<and>
   accept_json \<noteq> JNull \<and> \<not> deep_eq sample_number JUndefined accept_json \<and>
   \<not> structural_eq JUndefined accept_json \<and>
   same_types params_ab params_ba \<and> deep_eq sample_number params_ab params_ba \<and>
   structural_eq params_ab params_ba \<and>
   same_types_at get_accept (adapter_options accept_call) \<and>
   strict_spec get_accept ''/path'' (adapter_options accept_call) \<and>
   matchFor sample_number [get_accept] Strict ''/path'' (Some (adapter_options accept_call)) =
     Some 0 \<and>
   fst (adapter sample_number accept_mock accept_call) = Inr ok200 \<and>
   same_types_at get_accept (adapter_options get_call) \<and>
   \<not> strict_spec get_accept ''/path'' (adapter_options get_call) \<and>
   matchFor sample_number [get_accept] Strict ''/path'' (Some (adapter_options get_call)) = None \<and>
   adapter sample_number accept_mock get_call =
     (Inl (RequestNotFoundError (serializeConfig get_call) [toJSON get_accept]), accept_mock)"
proof -
  have runs:
    "mode accept_mock = Strict" "isValid get_accept"
    "map_of (registry accept_mock) Get = Some [get_accept]"
    "request_headers get_accept = accept_json"
    "accept_json \<noteq> JUndefined" "accept_json \<noteq> JNull"
    "same_types params_ab params_ba" "structural_eq params_ab params_ba"
    "same_types_at get_accept (adapter_options accept_call)"
    "strict_spec get_accept ''/path'' (adapter_options accept_call)"
    "fst (adapter sample_number accept_mock accept_call) = Inr ok200"
    "same_types_at get_accept (adapter_options get_call)"
    "\<not> strict_spec get_accept ''/path'' (adapter_options get_call)"
    "all_requests (registry accept_mock) = [get_accept]"
    "config_method get_call = Get" "config_data get_call \<noteq> NotJson"
    "adapter_uri get_call = ''/path''"
    by code_simp+
  note inst = strict_match_first_exact
    [where N = sample_number and requests = "[get_accept]" and u = "''/path''" and i = 0
       and a = params_ab and b = params_ba and v = accept_json and h = accept_mock
       and rs = "[get_accept]" and config = get_call]
  note at_call = inst [where opts = "adapter_options accept_call"]
  note at_none = inst [where opts = "adapter_options get_call"]
  have loose: "deep_eq sample_number params_ab params_ba"
    using at_call [THEN conjunct2, THEN conjunct2, THEN conjunct2, THEN conjunct1] runs(7,8)
    by simp
  have absent: "\<not> deep_eq sample_number JUndefined accept_json"
    "\<not> structural_eq JUndefined accept_json"
    using at_call runs(5,6) by blast+
  have some: "matchFor sample_number [get_accept] Strict ''/path''
                (Some (adapter_options accept_call)) = Some 0"
    using at_call [THEN conjunct2, THEN conjunct2, THEN conjunct2, THEN conjunct2,
        THEN conjunct1, rule_format, THEN conjunct1] runs(9,10)
    by simp
  have none: "matchFor sample_number [get_accept] Strict ''/path''
                (Some (adapter_options get_call)) = None"
    using at_none [THEN conjunct2, THEN conjunct2, THEN conjunct2, THEN conjunct2,
        THEN conjunct1, rule_format, THEN conjunct2] runs(12,13)
    by simp
  have pre: "mode accept_mock = Strict \<and>
      (\<forall>x\<in>set (all_requests (registry accept_mock)). isValid x) \<and>
      config_data get_call \<noteq> NotJson \<and>
      map_of (registry accept_mock) (config_method get_call) = Some [get_accept] \<and>
      matchFor sample_number [get_accept] Strict (adapter_uri get_call)
        (Some (adapter_options get_call)) = None"
    using runs none by simp
  have "adapter sample_number accept_mock get_call =
      (Inl (RequestNotFoundError (serializeConfig get_call)
              (map toJSON (all_requests (registry accept_mock)))), accept_mock)"
    using at_none pre by blast
  with runs loose absent some none show ?thesis by simp
qed

text \<open>
  C2 as stated fails on a registry with an incomplete definition: no \<^verbatim>\<open>get\<close>
  definition has the URI of the call, and the dispatch raises \<open>InvalidRequestsError\<close>
  for the incomplete \<^verbatim>\<open>post\<close> definition instead of \<open>RequestNotFoundError\<close>.
\<close>

theorem strict_no_match_invalid_registry_counterexample:
  "mode mock_with_incomplete = Strict \<and>
   map_of (registry mock_with_incomplete) (config_method missing_call) = Some [get_path] \<and>
   uri get_path = Some ''/path'' \<and> adapter_uri missing_call = ''/missing'' \<and>
   matchFor sample_number [get_path] Strict (adapter_uri missing_call)
     (Some (adapter_options missing_call)) = None \<and>
   adapter sample_number mock_with_incomplete missing_call =
     (Inl (InvalidRequestsError [toJSON post_incomplete]), mock_with_incomplete)"
  by code_simp

section \<open>Partial matching: the filter\<close>

lemma pass_iff:
  "filterable_pass N r opts \<longleftrightarrow>
     (\<forall>key\<in>set matcherKeys.
        \<not> truthy (request_at r key) \<or> \<not> truthy (options_at opts key) \<or>
        deep_eq N (options_at opts key) (request_at r key))"
  by (auto simp: filterable_pass_def matcherKeys_def ok_def eq_def)

text \<open>
  Where every field that is there is truthy (an object, an array, a non-empty string, a
  number other than 0, \<^verbatim>\<open>true\<close>), a candidate passes exactly when, for each of
  headers, params and body, one side lacks the field or the two sides are equal.
\<close>

lemma pass_when_present_truthy:
  assumes "\<forall>key\<in>set matcherKeys.
             (request_at r key = JUndefined \<or> truthy (request_at r key)) \<and>
             (options_at opts key = JUndefined \<or> truthy (options_at opts key))"
  shows "filterable_pass N r opts \<longleftrightarrow>
           (\<forall>key\<in>set matcherKeys.
              request_at r key = JUndefined \<or> options_at opts key = JUndefined \<or>
              deep_eq N (options_at opts key) (request_at r key))"
proof -
  have "\<not> truthy (request_at r key) \<longleftrightarrow> request_at r key = JUndefined"
    and "\<not> truthy (options_at opts key) \<longleftrightarrow> options_at opts key = JUndefined"
    if "key \<in> set matcherKeys" for key
    using assms that by auto
  then show ?thesis
    unfolding pass_iff by blast
qed

text \<open>
  No subset matching: two objects with different keys are not equal, so a definition that
  asks for params \<^verbatim>\<open>{a, b}\<close> does not pass for a call with \<^verbatim>\<open>{a}\<close> or
  \<^verbatim>\<open>{a, c}\<close>.
\<close>

lemma deep_eq_object_keys:
  assumes "deep_eq N (JObj ys) (JObj xs)" and "distinct (map fst xs)" and "distinct (map fst ys)"
  shows "fst ` set xs = fst ` set ys"
proof -
  from assms(1) have len: "length ys = length xs"
    and "\<forall>(k, v) \<in> set ys. map_of xs k \<noteq> None"
    by (auto split: option.splits)
  then have sub: "fst ` set ys \<subseteq> fst ` set xs"
    by (auto simp: map_of_eq_None_iff)
  have "card (fst ` set xs) = length xs" "card (fst ` set ys) = length ys"
    using assms(2,3) distinct_card [of "map fst xs"] distinct_card [of "map fst ys"] by simp_all
  with len have "card (fst ` set xs) = card (fst ` set ys)" by simp
  with sub show ?thesis
    by (metis List.finite_set card_subset_eq finite_imageI)
qed

lemma no_subset_matching:
  assumes "request_params r = JObj xs" and "params opts = JObj ys"
    and "distinct (map fst xs)" and "distinct (map fst ys)"
    and "fst ` set xs \<noteq> fst ` set ys"
  shows "\<not> filterable_pass N r opts"
proof -
  from assms have "\<not> deep_eq N (options_at opts ParamsKey) (request_at r ParamsKey)"
    using deep_eq_object_keys [of N ys xs] by auto
  moreover from assms(1,2) have "truthy (request_at r ParamsKey)"
    "truthy (options_at opts ParamsKey)"
    by simp_all
  ultimately show ?thesis
    by (auto simp: pass_iff matcherKeys_def)
qed

text \<open>
  The definition that asks for \<^verbatim>\<open>{a, b}\<close> passes for \<^verbatim>\<open>{a, b}\<close> in either key
  order and for a call without params, and fails for \<^verbatim>\<open>{a}\<close> and \<^verbatim>\<open>{a, c}\<close>.
\<close>

lemma partial_pass_params:
  "request_params get_ab = params_ab \<and>
   filterable_pass sample_number get_ab (params_only params_ab) \<and>
   filterable_pass sample_number get_ab (params_only params_ba) \<and>
   \<not> filterable_pass sample_number get_ab (params_only params_a) \<and>
   \<not> filterable_pass sample_number get_ab (params_only params_ac) \<and>
   filterable_pass sample_number get_ab no_options \<and>
   filterable_pass sample_number get_path (params_only params_a) \<and>
   matchFor sample_number [get_ab] Partial ''/path'' (Some (params_only params_a)) = None \<and>
   matchFor sample_number [get_ab] Partial ''/path'' (Some (params_only params_ba)) = Some 0"
  by code_simp

text \<open>
  C3. The filter takes a field to be there when its value is truthy
  (\<^verbatim>\<open>!options[key]\<close> in \<^verbatim>\<open>pass\<close>, \<^verbatim>\<open>!expected || !actual\<close> in \<^verbatim>\<open>ok\<close>), and the
  empty string is a value that is there and is not truthy. The definition below has the
  body \<^verbatim>\<open>""\<close>, the call has the body \<^verbatim>\<open>"x"\<close>; both sides have the field and the two
  are not equal. Strict matching, which compares the same two values with \<open>eq\<close>, finds no
  match; the filter of partial matching lets the definition pass, and the dispatch
  answers the call with it.
\<close>

theorem partial_pass_falsy_body:
  "request_body get_empty_body = JStr '''' \<and>
   body (adapter_options body_x_call) = JStr ''x'' \<and>
   \<not> deep_eq sample_number (body (adapter_options body_x_call)) (request_body get_empty_body) \<and>
   \<not> structural_eq (body (adapter_options body_x_call)) (request_body get_empty_body) \<and>
   matchFor sample_number [get_empty_body] Strict ''/path''
     (Some (adapter_options body_x_call)) = None \<and>
   matchFor sample_number [get_empty_body] Partial ''/path''
     (Some (adapter_options body_x_call)) = Some 0 \<and>
   map_of (registry empty_body_mock) Get = Some [get_empty_body] \<and>
   fst (adapter sample_number empty_body_mock body_x_call) = Inr created201"
  by code_simp

lemma falsy_body_passes:
  "\<not> eq sample_number (body body_x) (request_body get_empty_body) \<and>
   \<not> structural_eq (body body_x) (request_body get_empty_body) \<and>
   adapter_options body_x_call = body_x \<and>
   filterable_pass sample_number get_empty_body body_x"
  by code_simp

section \<open>Partial matching: the score\<close>

lemma score_at:
  "score N expected actual =
     (if truthy expected \<and> truthy actual \<and> deep_eq N expected actual then 2 else 0)"
  by (simp add: score_def ok_def eq_def)

lemma score_sum:
  "filterable_score N r opts =
     2 * int (length (filter
       (\<lambda>key. truthy (request_at r key) \<and> truthy (options_at opts key) \<and>
              deep_eq N (request_at r key) (options_at opts key)) matcherKeys))"
  by (simp add: filterable_score_def matcherKeys_def score_at)

text \<open>
  Where every field that is there is truthy, the score is twice the number of fields that
  both sides have and that are equal.
\<close>

lemma score_when_present_truthy:
  assumes "\<forall>key\<in>set matcherKeys.
             (request_at r key = JUndefined \<or> truthy (request_at r key)) \<and>
             (options_at opts key = JUndefined \<or> truthy (options_at opts key))"
  shows "filterable_score N r opts =
     2 * int (length (filter
       (\<lambda>key. request_at r key \<noteq> JUndefined \<and> options_at opts key \<noteq> JUndefined \<and>
              deep_eq N (request_at r key) (options_at opts key)) matcherKeys))"
proof -
  have "(truthy (request_at r key) \<and> truthy (options_at opts key) \<and>
         deep_eq N (request_at r key) (options_at opts key)) =
        (request_at r key \<noteq> JUndefined \<and> options_at opts key \<noteq> JUndefined \<and>
         deep_eq N (request_at r key) (options_at opts key))"
    if "key \<in> set matcherKeys" for key
    using assms that by auto
  then have "filter (\<lambda>key. truthy (request_at r key) \<and> truthy (options_at opts key) \<and>
                deep_eq N (request_at r key) (options_at opts key)) matcherKeys =
             filter (\<lambda>key. request_at r key \<noteq> JUndefined \<and> options_at opts key \<noteq> JUndefined \<and>
                deep_eq N (request_at r key) (options_at opts key)) matcherKeys"
    by (intro filter_cong refl)
  then show ?thesis
    by (simp only: score_sum)
qed

text \<open>
  The selection: what \<open>matchFor\<close> returns in partial mode is for the URI and passes the
  filter, no such candidate has a higher score, and none with the same score stands
  earlier in the sequence; it returns nothing exactly when no candidate for the URI
  passes.
\<close>

lemma partial_selection:
  "(matchFor N requests Partial u (Some opts) = Some i \<longrightarrow>
      i < length requests \<and>
      filterable_for (requests ! i) u \<and> filterable_pass N (requests ! i) opts \<and>
      (\<forall>j<length requests.
         filterable_for (requests ! j) u \<and> filterable_pass N (requests ! j) opts \<longrightarrow>
         filterable_score N (requests ! j) opts \<le> filterable_score N (requests ! i) opts \<and>
         (filterable_score N (requests ! j) opts = filterable_score N (requests ! i) opts \<longrightarrow>
          i \<le> j))) \<and>
   (matchFor N requests Partial u (Some opts) = None \<longleftrightarrow>
      (\<forall>j<length requests.
         \<not> (filterable_for (requests ! j) u \<and> filterable_pass N (requests ! j) opts)))"
proof (intro conjI impI)
  show "matchFor N requests Partial u (Some opts) = None \<longleftrightarrow>
      (\<forall>j<length requests.
         \<not> (filterable_for (requests ! j) u \<and> filterable_pass N (requests ! j) opts))"
    by (rule matchFor_partial_None)
  assume sel: "matchFor N requests Partial u (Some opts) = Some i"
  then show "i < length requests"
    and "filterable_for (requests ! i) u"
    and "filterable_pass N (requests ! i) opts"
    and "\<forall>j<length requests.
         filterable_for (requests ! j) u \<and> filterable_pass N (requests ! j) opts \<longrightarrow>
         filterable_score N (requests ! j) opts \<le> filterable_score N (requests ! i) opts \<and>
         (filterable_score N (requests ! j) opts = filterable_score N (requests ! i) opts \<longrightarrow>
          i \<le> j)"
    by (rule matchFor_partial_Some)+
qed

text \<open>
  The later, specific definition outranks the earlier, generic one; of two definitions
  with the same score the earlier one wins.
\<close>

lemma partial_specific_outranks_generic:
  "map_of (registry partial_mock) Get = Some [get_path, get_specific] \<and>
   filterable_pass sample_number get_path (adapter_options qv_call) \<and>
   filterable_pass sample_number get_specific (adapter_options qv_call) \<and>
   filterable_score sample_number get_path (adapter_options qv_call) = 0 \<and>
   filterable_score sample_number get_specific (adapter_options qv_call) = 2 \<and>
   matchFor sample_number [get_path, get_specific] Partial ''/path''
     (Some (adapter_options qv_call)) = Some 1 \<and>
   fst (adapter sample_number partial_mock qv_call) = Inr created201 \<and>
   matchFor sample_number [get_path, get_path] Partial ''/path''
     (Some (adapter_options qv_call)) = Some 0 \<and>
   matchFor sample_number [get_specific, get_path] Partial ''/path''
     (Some (adapter_options get_call)) = Some 0"
  by code_simp

text \<open>
  C4. The score, too, takes a field to be there when its value is truthy
  (\<^verbatim>\<open>if (expected && actual)\<close> in \<^verbatim>\<open>score\<close>). Below, the body \<^verbatim>\<open>""\<close> is there on
  both sides and the two are equal; nothing else is configured. The score of the
  definition is 0, not 2, so it does not outrank the generic definition registered
  before it, which has no body and scores 0: partial matching returns the generic
  definition and the dispatch answers 200. Strict matching, which compares the same two
  values with \<open>eq\<close>, returns the definition with the body.
\<close>

theorem partial_score_falsy_body:
  "request_body get_empty_body = JStr '''' \<and>
   body (adapter_options body_empty_call) = JStr '''' \<and>
   request_headers get_empty_body = JUndefined \<and> request_params get_empty_body = JUndefined \<and>
   request_body get_path = JUndefined \<and>
   deep_eq sample_number (request_body get_empty_body) (body (adapter_options body_empty_call)) \<and>
   structural_eq (request_body get_empty_body) (body (adapter_options body_empty_call)) \<and>
   filterable_score sample_number get_empty_body (adapter_options body_empty_call) = 0 \<and>
   filterable_score sample_number get_path (adapter_options body_empty_call) = 0 \<and>
   map_of (registry generic_then_empty_body_mock) Get = Some [get_path, get_empty_body] \<and>
   matchFor sample_number [get_path, get_empty_body] Partial ''/path''
     (Some (adapter_options body_empty_call)) = Some 0 \<and>
   matchFor sample_number [get_path, get_empty_body] Strict ''/path''
     (Some (adapter_options body_empty_call)) = Some 1 \<and>
   fst (adapter sample_number generic_then_empty_body_mock body_empty_call) = Inr ok200"
  by code_simp

lemma falsy_body_equal:
  "eq sample_number (request_body get_empty_body) (body body_empty) \<and>
   structural_eq (request_body get_empty_body) (body body_empty) \<and>
   adapter_options body_empty_call = body_empty \<and>
   filterable_pass sample_number get_empty_body body_empty \<and>
   filterable_pass sample_number get_path body_empty"
  by code_simp

end
